theory Spec2Isabelle
  imports Main
begin

section \<open>Values of the host page\<close>

text \<open>
  The loader of \<^verbatim>\<open>src/gui_lifecycle/qtloader.js\<close> is one function,
  \<^verbatim>\<open>QtLoader(config)\<close>, whose inner functions share the object
  \<^verbatim>\<open>publicAPI\<close>, the closure variable \<^verbatim>\<open>committedStatus\<close>, the caller's
  \<^verbatim>\<open>config\<close> object and properties of the global object (\<^verbatim>\<open>self\<close>). The model
  passes all of that as one explicit state. Exceptions are values: an operation
  that can throw returns the exception (if any) together with the state reached,
  since what was assigned before a throw stays assigned.

  Not modelled: the text written with \<^verbatim>\<open>console.log\<close>, the bundle's
  \<^verbatim>\<open>print\<close>, \<^verbatim>\<open>printErr\<close>, \<^verbatim>\<open>locateFile\<close> and
  \<^verbatim>\<open>monitorRunDependencies\<close>, and the inner HTML and style of created elements.
  Callbacks supplied by the page and the module factory are opaque: a call to one
  is recorded in the trace, it returns the value fixed for it, and it does not
  call back into the loader before it returns.
\<close>

text \<open>
  \<open>jsval\<close>: the two kinds of value that the probe for WebAssembly compares.
  \<open>error\<close>: the exceptions the loader's own statements can throw.
  \<open>'a ref\<close>: the value of a property that holds \<^verbatim>\<open>undefined\<close>,
  \<^verbatim>\<open>null\<close> or an object.
\<close>

datatype jsval = Undefined | Str string

datatype error = TypeError | ReferenceError

datatype 'a ref = RUndefined | RNull | RObj 'a

text \<open>
  Containers and module factories are opaque handles. An element is one the
  loader created (tag and class name) or one a callback of the page returned.
  The status is one of the five strings the status setter is called with;
  \<^verbatim>\<open>publicAPI.status\<close> and \<^verbatim>\<open>committedStatus\<close> start as \<^verbatim>\<open>undefined\<close>
  (\<open>None\<close>).
\<close>

type_synonym container = nat

type_synonym factory = nat

datatype element = Element string string | Foreign nat

datatype status = Created | Loading | Running | Exited | Error

text \<open>
  A presentation callback of \<^verbatim>\<open>config\<close> is the default the constructor
  installs, or one supplied by the page, with the value it returns (an element
  or \<^verbatim>\<open>undefined\<close>). A pre-run hook is the environment injection or a hook
  of somebody else.
\<close>

datatype callback = Default | User "element option"

datatype hook = EnvInjection | OtherHook nat

text \<open>
  The trace: calls of presentation callbacks with their arguments, calls of the
  \<^verbatim>\<open>statusChanged\<close> observer and of the module factory,
  \<^verbatim>\<open>location.reload()\<close>, and exceptions that leave a queued task.
\<close>

datatype event =
    ShowError "string option" "container option"
  | ShowLoader "container option"
  | ShowCanvas "container option"
  | ShowExit bool "int option" "container option"
  | StatusChanged "status option"
  | CreateModule factory
  | Reload
  | Uncaught error

text \<open>
  What the probes read from the host: the string \<^verbatim>\<open>typeof WebAssembly\<close>,
  whether \<^verbatim>\<open>document.createElement("canvas")\<close> returns (it throws
  otherwise), whether \<^verbatim>\<open>window.WebGLRenderingContext\<close> is truthy, and
  whether \<^verbatim>\<open>canvas.getContext("webgl")\<close> is truthy (\<open>None\<close>: it throws).
\<close>

record host =
  typeof_WebAssembly :: string
  document_createElement :: bool
  WebGLRenderingContext :: bool
  getContext_webgl :: "bool option"

text \<open>
  The \<^verbatim>\<open>config\<close> object; \<open>None\<close> is an absent property. Of the observer
  only its presence matters. \<^verbatim>\<open>config.restart\<close> is the closure a load
  stores, given by the factory it closes over.
\<close>

record config =
  containerElements :: "container list option"
  showError :: "callback option"
  showLoader :: "callback option"
  showCanvas :: "callback option"
  showExit :: "callback option"
  path :: "string option"
  restartMode :: "string option"
  restartType :: "string option"
  restartLimit :: "int option"
  stdoutEnabled :: "bool option"
  stderrEnabled :: "bool option"
  environment :: "(string \<times> string) list option"
  statusChanged :: bool
  restart :: "factory option"

record module =
  canvas :: "element ref"
  preRun :: "hook list option"

record exception =
  name :: string
  toString :: string

text \<open>
  The global object: the global \<^verbatim>\<open>Module\<close>'s hook list, the children of
  the containers, \<^verbatim>\<open>self.error\<close>, \<^verbatim>\<open>self.module\<close>,
  \<^verbatim>\<open>self.restartCount\<close>, the number of queued reactions and the trace.
  The state of a loader adds \<^verbatim>\<open>config\<close>, the fields of \<^verbatim>\<open>publicAPI\<close>
  and \<^verbatim>\<open>committedStatus\<close>.
\<close>

record window =
  host :: host
  Module_preRun :: "hook list option"
  children :: "container \<Rightarrow> element list"
  self_error :: "string option"
  self_module :: "module option"
  self_restartCount :: int
  pending :: nat
  trace :: "event list"

record state = window +
  config :: config
  webAssemblySupported_flag :: bool
  webGLSupported_flag :: bool
  canLoadQt_flag :: bool
  canLoadApplication_flag :: bool
  status :: "status option"
  crashed :: bool
  exitCode :: "int option"
  exitText :: "string option"
  committedStatus :: "status option"

section \<open>Capability probe\<close>

text \<open>
  \<^verbatim>\<open>typeof WebAssembly !== undefined\<close> compares the string that
  \<^verbatim>\<open>typeof\<close> yields with the value \<^verbatim>\<open>undefined\<close>, strictly.
\<close>

definition webAssemblySupported :: "host \<Rightarrow> bool" where
  "webAssemblySupported h = (Str (typeof_WebAssembly h) \<noteq> Undefined)"

text \<open>The body of the \<^verbatim>\<open>try\<close> block of \<^verbatim>\<open>webGLSupported\<close>.\<close>

definition webGLSupported_try :: "host \<Rightarrow> error + bool" where
  "webGLSupported_try h =
     (if \<not> document_createElement h then Inl ReferenceError
      else if \<not> WebGLRenderingContext h then Inr False
      else case getContext_webgl h of None \<Rightarrow> Inl TypeError | Some b \<Rightarrow> Inr b)"

definition webGLSupported :: "host \<Rightarrow> bool" where
  "webGLSupported h = (case webGLSupported_try h of Inl e \<Rightarrow> False | Inr b \<Rightarrow> b)"

definition canLoadQt :: "host \<Rightarrow> bool" where
  "canLoadQt h = (webAssemblySupported h \<and> webGLSupported h)"

section \<open>Status setter and the module's callbacks\<close>

definition setStatus :: "status \<Rightarrow> state \<Rightarrow> state" where
  "setStatus s st =
     (if status st = Some s then st
      else st\<lparr>status := Some s, pending := pending st + 1\<rparr>)"

text \<open>The bundle's \<^verbatim>\<open>setStatus(text)\<close>, \<^verbatim>\<open>onAbort(text)\<close> and \<^verbatim>\<open>quit(code, exception)\<close>.\<close>

definition module_setStatus :: "string \<Rightarrow> state \<Rightarrow> state" where
  "module_setStatus text st =
     (if take 7 text = ''Running'' then setStatus Running st else st)"

definition onAbort :: "string \<Rightarrow> state \<Rightarrow> state" where
  "onAbort text st = setStatus Exited (st\<lparr>crashed := True, exitText := Some text\<rparr>)"

definition quit :: "int \<Rightarrow> exception \<Rightarrow> state \<Rightarrow> state" where
  "quit code exc st =
     setStatus Exited
       (if name exc = ''ExitStatus'' then st\<lparr>exitCode := Some code\<rparr>
        else st\<lparr>exitText := Some (toString exc), crashed := True\<rparr>)"

section \<open>Environment injection\<close>

text \<open>
  \<^verbatim>\<open>String.prototype.toUpperCase\<close> belongs to the host, not to the loader:
  the injection step takes it as a parameter. What is known of it here is its
  value on strings of ASCII characters (\<open>ascii\<close>), where it turns the letters
  a to z into A to Z and leaves every other character: \<open>ascii_toUpperCase\<close>.
  Outside ASCII (where one character can become two, or two keys can meet)
  nothing is assumed of it.
\<close>

definition ascii :: "string \<Rightarrow> bool" where
  "ascii s = list_all (\<lambda>c. (of_char c :: nat) < 128) s"

definition upper_char :: "char \<Rightarrow> char" where
  "upper_char c =
     (let n = (of_char c :: nat)
      in if 97 \<le> n \<and> n \<le> 122 then char_of (n - 32) else c)"

definition ascii_toUpperCase :: "string \<Rightarrow> string" where
  "ascii_toUpperCase s = map upper_char s"

text \<open>
  The function pushed on \<^verbatim>\<open>Module.preRun\<close>. \<^verbatim>\<open>ENV\<close> is the module's
  environment table; the entries are in the order of \<^verbatim>\<open>Object.entries\<close>.
\<close>

fun envInjection_loop ::
  "(string \<Rightarrow> string) \<Rightarrow> (string \<times> string) list \<Rightarrow> (string \<rightharpoonup> string) \<Rightarrow> (string \<rightharpoonup> string)" where
  "envInjection_loop toUpperCase [] ENV = ENV"
| "envInjection_loop toUpperCase ((key, v) # rest) ENV =
     envInjection_loop toUpperCase rest (ENV(toUpperCase key \<mapsto> v))"

definition envInjection ::
  "(string \<Rightarrow> string) \<Rightarrow> config \<Rightarrow> (string \<rightharpoonup> string) \<Rightarrow> error + (string \<rightharpoonup> string)" where
  "envInjection toUpperCase cfg ENV =
     (case environment cfg of
        None \<Rightarrow> Inl TypeError
      | Some entries \<Rightarrow> Inr (envInjection_loop toUpperCase entries ENV))"

section \<open>Loading and restarting\<close>

text \<open>
  The bundle is created as the empty object \<^verbatim>\<open>module = {}\<close>; of its
  properties the model keeps \<^verbatim>\<open>canvas\<close> and \<^verbatim>\<open>preRun\<close>, both absent at
  creation. The hook list that receives the environment injection is the one of
  the global \<^verbatim>\<open>Module\<close>: \<open>Module_preRun\<close> is \<open>None\<close> when the page has
  no such global (reading it throws), and the list otherwise (empty when the
  property is absent). The factory is called last, with the bundle.
\<close>

definition loadEmscriptenModule :: "factory \<Rightarrow> state \<Rightarrow> error option \<times> state" where
  "loadEmscriptenModule createModule st =
     (if \<not> webAssemblySupported (host st) then
        (None, setStatus Error (st\<lparr>self_error := Some ''Error: WebAssembly is not supported''\<rparr>))
      else if \<not> webGLSupported (host st) then
        (None, setStatus Error (st\<lparr>self_error := Some ''Error: WebGL is not supported''\<rparr>))
      else
        let st1 = st\<lparr>self_module := Some \<lparr>canvas = RUndefined, preRun = None\<rparr>\<rparr> in
        case Module_preRun st1 of
          None \<Rightarrow> (Some ReferenceError, st1)
        | Some hooks \<Rightarrow>
            let st2 = st1\<lparr>Module_preRun := Some (hooks @ [EnvInjection]),
                         config := (config st1)\<lparr>restart := Some createModule\<rparr>,
                         exitCode := None, exitText := None, crashed := False\<rparr>;
                st3 = setStatus Loading st2
            in (None, st3\<lparr>trace := trace st3 @ [CreateModule createModule]\<rparr>))"

definition restartLimit_exceeded :: "int \<Rightarrow> int option \<Rightarrow> bool" where
  "restartLimit_exceeded n limit = (case limit of None \<Rightarrow> False | Some l \<Rightarrow> n > l)"

text \<open>The closure stored in \<^verbatim>\<open>config.restart\<close> by a load with factory \<open>createModule\<close>.\<close>

definition restart_closure :: "factory \<Rightarrow> state \<Rightarrow> error option \<times> state" where
  "restart_closure createModule st =
     (let st1 = (if restartType (config st) = Some ''ReloadPage''
                 then st\<lparr>trace := trace st @ [Reload]\<rparr> else st);
          st2 = st1\<lparr>self_restartCount := self_restartCount st1 + 1\<rparr>
      in if restartLimit_exceeded (self_restartCount st2) (restartLimit (config st2)) then
           (None, setStatus Error (st2\<lparr>self_error := Some
              ''Error: This application has crashed too many times and has been disabled. Reload the page to try again.''\<rparr>))
         else loadEmscriptenModule createModule st2)"

section \<open>Presentation\<close>

text \<open>
  \<^verbatim>\<open>removeChildren\<close> removes the first child until none is left.
  \<^verbatim>\<open>appendChild\<close> throws when its argument is \<^verbatim>\<open>undefined\<close>, and it
  moves a node that has a parent: an element that a callback of the page
  returned is taken out of the container that holds it before it is appended
  (\<open>detach\<close>); an element the loader created is new and has no parent.
\<close>

fun removeChildren_loop :: "element list \<Rightarrow> element list" where
  "removeChildren_loop [] = []"
| "removeChildren_loop (firstChild # rest) = removeChildren_loop rest"

definition removeChildren :: "container \<Rightarrow> state \<Rightarrow> state" where
  "removeChildren c st = st\<lparr>children := (children st)(c := removeChildren_loop (children st c))\<rparr>"

fun detach :: "element \<Rightarrow> element list \<Rightarrow> element list" where
  "detach (Foreign n) els = removeAll (Foreign n) els"
| "detach (Element tag className) els = els"

definition appendChild :: "container \<Rightarrow> element option \<Rightarrow> state \<Rightarrow> error option \<times> state" where
  "appendChild c r st =
     (case r of
        None \<Rightarrow> (Some TypeError, st)
      | Some e \<Rightarrow>
          (None, st\<lparr>children :=
             (\<lambda>c'. detach e (children st c'))(c := detach e (children st c) @ [e])\<rparr>))"

text \<open>
  A call of a presentation callback of \<^verbatim>\<open>config\<close>: calling an absent one
  throws; the default one (installed by the constructor when containers are given)
  clears the container it is passed and returns a new element; a supplied one
  returns its value. The default \<^verbatim>\<open>showExit\<close> returns \<^verbatim>\<open>undefined\<close> first
  when \<^verbatim>\<open>crashed\<close> is false.
\<close>

definition call_default :: "string \<Rightarrow> string \<Rightarrow> container option \<Rightarrow> state \<Rightarrow> error option \<times> element option \<times> state" where
  "call_default tag className arg st =
     (case arg of
        None \<Rightarrow> (Some TypeError, None, st)
      | Some c \<Rightarrow> (None, Some (Element tag className), removeChildren c st))"

definition call_showError :: "container option \<Rightarrow> state \<Rightarrow> error option \<times> element option \<times> state" where
  "call_showError arg st =
     (case showError (config st) of
        None \<Rightarrow> (Some TypeError, None, st)
      | Some cb \<Rightarrow>
          (let st1 = st\<lparr>trace := trace st @ [ShowError (self_error st) arg]\<rparr>
           in case cb of
               User r \<Rightarrow> (None, r, st1)
             | Default \<Rightarrow> call_default ''text'' ''QtError'' arg st1))"

definition call_showLoader :: "container option \<Rightarrow> state \<Rightarrow> error option \<times> element option \<times> state" where
  "call_showLoader arg st =
     (case showLoader (config st) of
        None \<Rightarrow> (Some TypeError, None, st)
      | Some cb \<Rightarrow>
          (let st1 = st\<lparr>trace := trace st @ [ShowLoader arg]\<rparr>
           in case cb of
               User r \<Rightarrow> (None, r, st1)
             | Default \<Rightarrow> call_default ''text'' ''QtLoading'' arg st1))"

definition call_showCanvas :: "container option \<Rightarrow> state \<Rightarrow> error option \<times> element option \<times> state" where
  "call_showCanvas arg st =
     (case showCanvas (config st) of
        None \<Rightarrow> (Some TypeError, None, st)
      | Some cb \<Rightarrow>
          (let st1 = st\<lparr>trace := trace st @ [ShowCanvas arg]\<rparr>
           in case cb of
               User r \<Rightarrow> (None, r, st1)
             | Default \<Rightarrow> call_default ''canvas'' ''QtCanvas'' arg st1))"

definition call_showExit :: "container option \<Rightarrow> state \<Rightarrow> error option \<times> element option \<times> state" where
  "call_showExit arg st =
     (case showExit (config st) of
        None \<Rightarrow> (Some TypeError, None, st)
      | Some cb \<Rightarrow>
          (let st1 = st\<lparr>trace := trace st @ [ShowExit (crashed st) (exitCode st) arg]\<rparr>
           in case cb of
               User r \<Rightarrow> (None, r, st1)
             | Default \<Rightarrow>
                   if \<not> crashed st then (None, None, st1)
                   else call_default ''text'' ''QtExit'' arg st1))"

fun setErrorContent_loop :: "container list \<Rightarrow> state \<Rightarrow> error option \<times> state" where
  "setErrorContent_loop [] st = (None, st)"
| "setErrorContent_loop (c # cs) st =
     (case call_showError (Some c) st of
        (Some e, r, st1) \<Rightarrow> (Some e, st1)
      | (None, errorElement, st1) \<Rightarrow>
          (case appendChild c errorElement st1 of
             (Some e, st2) \<Rightarrow> (Some e, st2)
           | (None, st2) \<Rightarrow> setErrorContent_loop cs st2))"

definition setErrorContent :: "state \<Rightarrow> error option \<times> state" where
  "setErrorContent st =
     (case containerElements (config st) of
        None \<Rightarrow>
          (if showError (config st) \<noteq> None
           then (case call_showError None st of (e, r, st1) \<Rightarrow> (e, st1))
           else (None, st))
      | Some cs \<Rightarrow> setErrorContent_loop cs st)"

fun setLoaderContent_loop :: "container list \<Rightarrow> state \<Rightarrow> error option \<times> state" where
  "setLoaderContent_loop [] st = (None, st)"
| "setLoaderContent_loop (c # cs) st =
     (case call_showLoader (Some c) st of
        (Some e, r, st1) \<Rightarrow> (Some e, st1)
      | (None, loaderElement, st1) \<Rightarrow>
          (case appendChild c loaderElement st1 of
             (Some e, st2) \<Rightarrow> (Some e, st2)
           | (None, st2) \<Rightarrow> setLoaderContent_loop cs st2))"

definition setLoaderContent :: "state \<Rightarrow> error option \<times> state" where
  "setLoaderContent st =
     (case containerElements (config st) of
        None \<Rightarrow>
          (if showLoader (config st) \<noteq> None
           then (case call_showLoader None st of (e, r, st1) \<Rightarrow> (e, st1))
           else (None, st))
      | Some cs \<Rightarrow> setLoaderContent_loop cs st)"

fun setCanvasContent_loop :: "container list \<Rightarrow> state \<Rightarrow> error option \<times> state" where
  "setCanvasContent_loop [] st = (None, st)"
| "setCanvasContent_loop (c # cs) st =
     (case call_showCanvas (Some c) st of
        (Some e, r, st1) \<Rightarrow> (Some e, st1)
      | (None, canvasElement, st1) \<Rightarrow>
          (case appendChild c canvasElement st1 of
             (Some e, st2) \<Rightarrow> (Some e, st2)
           | (None, st2) \<Rightarrow> setCanvasContent_loop cs st2))"

text \<open>
  The first half of \<^verbatim>\<open>setCanvasContent\<close> computes \<^verbatim>\<open>firstCanvas\<close>:
  the value of \<^verbatim>\<open>config.showCanvas()\<close>, or the first child of the first
  container (\<^verbatim>\<open>null\<close> when it has none; reading it throws when the list of
  containers is empty).
\<close>

definition firstCanvas :: "state \<Rightarrow> error option \<times> element ref \<times> state" where
  "firstCanvas st =
     (case containerElements (config st) of
        None \<Rightarrow>
          (case call_showCanvas None st of
             (e, None, st1) \<Rightarrow> (e, RUndefined, st1)
           | (e, Some el, st1) \<Rightarrow> (e, RObj el, st1))
      | Some cs \<Rightarrow>
          (case setCanvasContent_loop cs st of
             (Some e, st1) \<Rightarrow> (Some e, RUndefined, st1)
           | (None, st1) \<Rightarrow>
               (case cs of
                  [] \<Rightarrow> (Some TypeError, RUndefined, st1)
                | c0 # rest \<Rightarrow>
                    (case children st1 c0 of
                       [] \<Rightarrow> (None, RNull, st1)
                     | el # els \<Rightarrow> (None, RObj el, st1)))))"

definition setCanvasContent :: "state \<Rightarrow> error option \<times> state" where
  "setCanvasContent st =
     (case firstCanvas st of
        (Some e, fc, st1) \<Rightarrow> (Some e, st1)
      | (None, fc, st1) \<Rightarrow>
          (case self_module st1 of
             None \<Rightarrow> (Some TypeError, st1)
           | Some m \<Rightarrow>
               if canvas m = RUndefined
               then (None, st1\<lparr>self_module := Some (m\<lparr>canvas := fc\<rparr>)\<rparr>)
               else (None, st1)))"

fun setExitContent_loop :: "container list \<Rightarrow> state \<Rightarrow> error option \<times> state" where
  "setExitContent_loop [] st = (None, st)"
| "setExitContent_loop (c # cs) st =
     (case call_showExit (Some c) st of
        (Some e, r, st1) \<Rightarrow> (Some e, st1)
      | (None, loaderElement, st1) \<Rightarrow>
          (if loaderElement \<noteq> None
           then (case appendChild c loaderElement st1 of
                   (Some e, st2) \<Rightarrow> (Some e, st2)
                 | (None, st2) \<Rightarrow> setExitContent_loop cs st2)
           else setExitContent_loop cs st1))"

definition setExitContent :: "state \<Rightarrow> error option \<times> state" where
  "setExitContent st =
     (if status st \<noteq> Some Exited then (None, st)
      else case containerElements (config st) of
        None \<Rightarrow>
          (if showExit (config st) \<noteq> None
           then (case call_showExit None st of (e, r, st1) \<Rightarrow> (e, st1))
           else (None, st))
      | Some cs \<Rightarrow>
          if \<not> crashed st then (None, st)
          else setExitContent_loop cs st)"

section \<open>The deferred reaction\<close>

definition restart_wanted :: "state \<Rightarrow> bool" where
  "restart_wanted st =
     (restartMode (config st) = Some ''RestartOnExit'' \<or>
      restartMode (config st) = Some ''RestartOnCrash'' \<and> crashed st)"

text \<open>\<^verbatim>\<open>config.restart()\<close>: a call of the stored closure, or of nothing.\<close>

definition call_restart :: "state \<Rightarrow> error option \<times> state" where
  "call_restart st =
     (case restart (config st) of
        None \<Rightarrow> (Some TypeError, st)
      | Some createModule \<Rightarrow> restart_closure createModule st)"

text \<open>
  \<^verbatim>\<open>handleStatusChange\<close> in its three parts: the guard and the assignment
  of \<^verbatim>\<open>committedStatus\<close>; the chain of \<^verbatim>\<open>if\<close>s on the status
  (\<open>dispatch\<close>); the notification of the observer (\<open>notify\<close>), which an
  exception thrown in the chain skips.
\<close>

definition dispatch :: "state \<Rightarrow> error option \<times> state" where
  "dispatch st =
     (if status st = Some Error then setErrorContent st
      else if status st = Some Loading then setLoaderContent st
      else if status st = Some Running then setCanvasContent st
      else if status st = Some Exited then
        (if restart_wanted st
         then call_restart (st\<lparr>committedStatus := None\<rparr>)
         else setExitContent st)
      else (None, st))"

definition notify :: "state \<Rightarrow> state" where
  "notify st =
     (if statusChanged (config st)
      then st\<lparr>trace := trace st @ [StatusChanged (status st)]\<rparr>
      else st)"

definition handleStatusChange :: "state \<Rightarrow> error option \<times> state" where
  "handleStatusChange st =
     (if committedStatus st = status st then (None, st)
      else
        case dispatch (st\<lparr>committedStatus := status st\<rparr>) of
          (Some err, st2) \<Rightarrow> (Some err, st2)
        | (None, st2) \<Rightarrow> (None, notify st2))"

text \<open>
  \<^verbatim>\<open>window.setTimeout(function() { handleStatusChange(); }, 0)\<close> queues one
  task; \<open>pending\<close> counts the queued ones. \<open>run_task\<close> is the host running
  the oldest of them (an exception it throws is uncaught and ends that task
  only), \<open>drain\<close> the host running tasks until none is queued.
\<close>

definition run_task :: "state \<Rightarrow> state" where
  "run_task st =
     (case handleStatusChange (st\<lparr>pending := pending st - 1\<rparr>) of
        (None, st1) \<Rightarrow> st1
      | (Some e, st1) \<Rightarrow> st1\<lparr>trace := trace st1 @ [Uncaught e]\<rparr>)"

section \<open>Construction\<close>

definition or_default :: "callback option \<Rightarrow> callback option" where
  "or_default cb = (case cb of None \<Rightarrow> Some Default | Some f \<Rightarrow> Some f)"

definition normalize_path :: "string option \<Rightarrow> string option" where
  "normalize_path p =
     (case p of
        None \<Rightarrow> Some []
      | Some s \<Rightarrow> if length s > 0 \<and> last s \<noteq> CHR ''/'' then Some (s @ ''/'') else Some s)"

definition normalize_config :: "config \<Rightarrow> config" where
  "normalize_config cfg =
     (let c1 = (if containerElements cfg \<noteq> None
                then cfg\<lparr>showError := or_default (showError cfg),
                         showLoader := or_default (showLoader cfg),
                         showCanvas := or_default (showCanvas cfg),
                         showExit := or_default (showExit cfg)\<rparr>
                else cfg)
      in c1\<lparr>restartMode := (case restartMode c1 of
                               None \<Rightarrow> Some ''DoNotRestart''
                             | Some m \<Rightarrow> if m = [] then Some ''DoNotRestart'' else Some m),
             restartLimit := (case restartLimit c1 of
                                None \<Rightarrow> Some 10
                              | Some l \<Rightarrow> if l = 0 then Some 10 else Some l),
             stdoutEnabled := (case stdoutEnabled c1 of None \<Rightarrow> Some True | Some b \<Rightarrow> Some b),
             stderrEnabled := (case stderrEnabled c1 of None \<Rightarrow> Some True | Some b \<Rightarrow> Some b),
             path := normalize_path (path c1)\<rparr>)"

definition QtLoader :: "config \<Rightarrow> window \<Rightarrow> state" where
  "QtLoader cfg w =
     setStatus Created
       \<lparr>host = host w, Module_preRun = Module_preRun w, children = children w,
        self_error = self_error w, self_module = self_module w,
        self_restartCount = 0, pending = pending w, trace = trace w,
        config = normalize_config cfg,
        webAssemblySupported_flag = webAssemblySupported (host w),
        webGLSupported_flag = webGLSupported (host w),
        canLoadQt_flag = canLoadQt (host w),
        canLoadApplication_flag = canLoadQt (host w),
        status = None, crashed = False, exitCode = None, exitText = None,
        committedStatus = None\<rparr>"

section \<open>Frame properties of the presentation functions\<close>

text \<open>
  The presentation functions change the children of containers, the trace and
  the module's canvas only (\<open>core\<close> forgets exactly these), and they neither
  read nor write the number of queued tasks.
\<close>

definition core :: "state \<Rightarrow> state" where
  "core st = st\<lparr>children := (\<lambda>c. []), trace := [], self_module := None\<rparr>"

definition with_pending :: "nat \<Rightarrow> error option \<times> state \<Rightarrow> error option \<times> state" where
  "with_pending p r = (fst r, (snd r)\<lparr>pending := p\<rparr>)"

definition with_pending3 :: "nat \<Rightarrow> error option \<times> 'a \<times> state \<Rightarrow> error option \<times> 'a \<times> state" where
  "with_pending3 p r = (fst r, fst (snd r), (snd (snd r))\<lparr>pending := p\<rparr>)"

lemma core_update [simp]:
  "core (st\<lparr>children := f\<rparr>) = core st"
  "core (st\<lparr>trace := t\<rparr>) = core st"
  "core (st\<lparr>self_module := m\<rparr>) = core st"
  by (simp_all add: core_def)

lemma core_fields:
  assumes "core a = core b"
  shows "pending a = pending b" "status a = status b" "crashed a = crashed b"
    "committedStatus a = committedStatus b" "config a = config b"
    "self_restartCount a = self_restartCount b" "exitCode a = exitCode b"
    "exitText a = exitText b" "Module_preRun a = Module_preRun b" "host a = host b"
    "self_error a = self_error b"
proof -
  have p: "\<And>f. f (core a) = f (core b)" using assms by simp
  show "pending a = pending b" using p [of pending] by (simp add: core_def)
  show "status a = status b" using p [of status] by (simp add: core_def)
  show "crashed a = crashed b" using p [of crashed] by (simp add: core_def)
  show "committedStatus a = committedStatus b" using p [of committedStatus] by (simp add: core_def)
  show "config a = config b" using p [of config] by (simp add: core_def)
  show "self_restartCount a = self_restartCount b" using p [of self_restartCount] by (simp add: core_def)
  show "exitCode a = exitCode b" using p [of exitCode] by (simp add: core_def)
  show "exitText a = exitText b" using p [of exitText] by (simp add: core_def)
  show "Module_preRun a = Module_preRun b" using p [of Module_preRun] by (simp add: core_def)
  show "host a = host b" using p [of host] by (simp add: core_def)
  show "self_error a = self_error b" using p [of self_error] by (simp add: core_def)
qed

lemma call_default_core: "core (snd (snd (call_default t c a st))) = core st"
  by (simp add: call_default_def removeChildren_def split: option.splits)

lemma call_default_pending:
  "call_default t c a (st\<lparr>pending := p\<rparr>) = with_pending3 p (call_default t c a st)"
  by (simp add: call_default_def removeChildren_def with_pending3_def split: option.splits)

lemma appendChild_core: "core (snd (appendChild c r st)) = core st"
  by (simp add: appendChild_def split: option.splits)

lemma appendChild_pending:
  "appendChild c r (st\<lparr>pending := p\<rparr>) = with_pending p (appendChild c r st)"
  by (simp add: appendChild_def with_pending_def split: option.splits)

lemma call_showError_core: "core (snd (snd (call_showError a st))) = core st"
  by (simp add: call_showError_def Let_def call_default_core split: option.splits callback.splits)

lemma call_showError_pending:
  "call_showError a (st\<lparr>pending := p\<rparr>) = with_pending3 p (call_showError a st)"
  by (simp add: call_showError_def Let_def call_default_def removeChildren_def with_pending3_def
      split: option.splits callback.splits)

lemma call_showLoader_core: "core (snd (snd (call_showLoader a st))) = core st"
  by (simp add: call_showLoader_def Let_def call_default_core split: option.splits callback.splits)

lemma call_showLoader_pending:
  "call_showLoader a (st\<lparr>pending := p\<rparr>) = with_pending3 p (call_showLoader a st)"
  by (simp add: call_showLoader_def Let_def call_default_def removeChildren_def with_pending3_def
      split: option.splits callback.splits)

lemma call_showCanvas_core: "core (snd (snd (call_showCanvas a st))) = core st"
  by (simp add: call_showCanvas_def Let_def call_default_core split: option.splits callback.splits)

lemma call_showCanvas_pending:
  "call_showCanvas a (st\<lparr>pending := p\<rparr>) = with_pending3 p (call_showCanvas a st)"
  by (simp add: call_showCanvas_def Let_def call_default_def removeChildren_def with_pending3_def
      split: option.splits callback.splits)

lemma call_showExit_core: "core (snd (snd (call_showExit a st))) = core st"
  by (simp add: call_showExit_def Let_def call_default_core split: option.splits callback.splits)

lemma call_showExit_pending:
  "call_showExit a (st\<lparr>pending := p\<rparr>) = with_pending3 p (call_showExit a st)"
  by (simp add: call_showExit_def Let_def call_default_def removeChildren_def with_pending3_def
      split: option.splits callback.splits)

lemma setErrorContent_loop_frame:
  "core (snd (setErrorContent_loop cs st)) = core st \<and>
   setErrorContent_loop cs (st\<lparr>pending := p\<rparr>) = with_pending p (setErrorContent_loop cs st)"
proof (induction cs arbitrary: st)
  case Nil
  show ?case by (simp add: with_pending_def)
next
  case (Cons c cs)
  obtain e r s1 where a: "call_showError (Some c) st = (e, r, s1)"
    by (metis prod_cases3)
  obtain e2 s2 where b: "appendChild c r s1 = (e2, s2)"
    by (metis prod.exhaust)
  have c1: "core s1 = core st"
    using call_showError_core [of "Some c" st] a by simp
  have c2: "core s2 = core s1"
    using appendChild_core [of c r s1] b by simp
  have a': "call_showError (Some c) (st\<lparr>pending := p\<rparr>) = (e, r, s1\<lparr>pending := p\<rparr>)"
    using a by (simp add: call_showError_pending with_pending3_def)
  have b': "appendChild c r (s1\<lparr>pending := p\<rparr>) = (e2, s2\<lparr>pending := p\<rparr>)"
    using b by (simp add: appendChild_pending with_pending_def)
  show ?case
    using a b a' b' c1 c2 Cons [of s2]
    by (simp add: with_pending_def split: option.splits)
qed

lemma setLoaderContent_loop_frame:
  "core (snd (setLoaderContent_loop cs st)) = core st \<and>
   setLoaderContent_loop cs (st\<lparr>pending := p\<rparr>) = with_pending p (setLoaderContent_loop cs st)"
proof (induction cs arbitrary: st)
  case Nil
  show ?case by (simp add: with_pending_def)
next
  case (Cons c cs)
  obtain e r s1 where a: "call_showLoader (Some c) st = (e, r, s1)"
    by (metis prod_cases3)
  obtain e2 s2 where b: "appendChild c r s1 = (e2, s2)"
    by (metis prod.exhaust)
  have c1: "core s1 = core st"
    using call_showLoader_core [of "Some c" st] a by simp
  have c2: "core s2 = core s1"
    using appendChild_core [of c r s1] b by simp
  have a': "call_showLoader (Some c) (st\<lparr>pending := p\<rparr>) = (e, r, s1\<lparr>pending := p\<rparr>)"
    using a by (simp add: call_showLoader_pending with_pending3_def)
  have b': "appendChild c r (s1\<lparr>pending := p\<rparr>) = (e2, s2\<lparr>pending := p\<rparr>)"
    using b by (simp add: appendChild_pending with_pending_def)
  show ?case
    using a b a' b' c1 c2 Cons [of s2]
    by (simp add: with_pending_def split: option.splits)
qed

lemma setCanvasContent_loop_frame:
  "core (snd (setCanvasContent_loop cs st)) = core st \<and>
   setCanvasContent_loop cs (st\<lparr>pending := p\<rparr>) = with_pending p (setCanvasContent_loop cs st)"
proof (induction cs arbitrary: st)
  case Nil
  show ?case by (simp add: with_pending_def)
next
  case (Cons c cs)
  obtain e r s1 where a: "call_showCanvas (Some c) st = (e, r, s1)"
    by (metis prod_cases3)
  obtain e2 s2 where b: "appendChild c r s1 = (e2, s2)"
    by (metis prod.exhaust)
  have c1: "core s1 = core st"
    using call_showCanvas_core [of "Some c" st] a by simp
  have c2: "core s2 = core s1"
    using appendChild_core [of c r s1] b by simp
  have a': "call_showCanvas (Some c) (st\<lparr>pending := p\<rparr>) = (e, r, s1\<lparr>pending := p\<rparr>)"
    using a by (simp add: call_showCanvas_pending with_pending3_def)
  have b': "appendChild c r (s1\<lparr>pending := p\<rparr>) = (e2, s2\<lparr>pending := p\<rparr>)"
    using b by (simp add: appendChild_pending with_pending_def)
  show ?case
    using a b a' b' c1 c2 Cons [of s2]
    by (simp add: with_pending_def split: option.splits)
qed

lemma setExitContent_loop_frame:
  "core (snd (setExitContent_loop cs st)) = core st \<and>
   setExitContent_loop cs (st\<lparr>pending := p\<rparr>) = with_pending p (setExitContent_loop cs st)"
proof (induction cs arbitrary: st)
  case Nil
  show ?case by (simp add: with_pending_def)
next
  case (Cons c cs)
  obtain e r s1 where a: "call_showExit (Some c) st = (e, r, s1)"
    by (metis prod_cases3)
  obtain e2 s2 where b: "appendChild c r s1 = (e2, s2)"
    by (metis prod.exhaust)
  have c1: "core s1 = core st"
    using call_showExit_core [of "Some c" st] a by simp
  have c2: "core s2 = core s1"
    using appendChild_core [of c r s1] b by simp
  have a': "call_showExit (Some c) (st\<lparr>pending := p\<rparr>) = (e, r, s1\<lparr>pending := p\<rparr>)"
    using a by (simp add: call_showExit_pending with_pending3_def)
  have b': "appendChild c r (s1\<lparr>pending := p\<rparr>) = (e2, s2\<lparr>pending := p\<rparr>)"
    using b by (simp add: appendChild_pending with_pending_def)
  show ?case
    using a b a' b' c1 c2 Cons [of s2] Cons [of s1]
    by (simp add: with_pending_def split: option.splits)
qed

lemma setErrorContent_frame:
  "core (snd (setErrorContent st)) = core st \<and>
   setErrorContent (st\<lparr>pending := p\<rparr>) = with_pending p (setErrorContent st)"
proof -
  obtain e r s1 where a: "call_showError None st = (e, r, s1)"
    by (metis prod_cases3)
  have c1: "core s1 = core st"
    using call_showError_core [of None st] a by simp
  have a': "call_showError None (st\<lparr>pending := p\<rparr>) = (e, r, s1\<lparr>pending := p\<rparr>)"
    using a by (simp add: call_showError_pending with_pending3_def)
  show ?thesis
    using a a' c1 setErrorContent_loop_frame [of _ st p]
    by (auto simp add: setErrorContent_def with_pending_def split: option.splits)
qed

lemma setLoaderContent_frame:
  "core (snd (setLoaderContent st)) = core st \<and>
   setLoaderContent (st\<lparr>pending := p\<rparr>) = with_pending p (setLoaderContent st)"
proof -
  obtain e r s1 where a: "call_showLoader None st = (e, r, s1)"
    by (metis prod_cases3)
  have c1: "core s1 = core st"
    using call_showLoader_core [of None st] a by simp
  have a': "call_showLoader None (st\<lparr>pending := p\<rparr>) = (e, r, s1\<lparr>pending := p\<rparr>)"
    using a by (simp add: call_showLoader_pending with_pending3_def)
  show ?thesis
    using a a' c1 setLoaderContent_loop_frame [of _ st p]
    by (auto simp add: setLoaderContent_def with_pending_def split: option.splits)
qed

lemma setExitContent_frame:
  "core (snd (setExitContent st)) = core st \<and>
   setExitContent (st\<lparr>pending := p\<rparr>) = with_pending p (setExitContent st)"
proof -
  obtain e r s1 where a: "call_showExit None st = (e, r, s1)"
    by (metis prod_cases3)
  have c1: "core s1 = core st"
    using call_showExit_core [of None st] a by simp
  have a': "call_showExit None (st\<lparr>pending := p\<rparr>) = (e, r, s1\<lparr>pending := p\<rparr>)"
    using a by (simp add: call_showExit_pending with_pending3_def)
  show ?thesis
    using a a' c1 setExitContent_loop_frame [of _ st p]
    by (auto simp add: setExitContent_def with_pending_def split: option.splits)
qed

lemma firstCanvas_frame:
  "core (snd (snd (firstCanvas st))) = core st \<and>
   firstCanvas (st\<lparr>pending := p\<rparr>) = with_pending3 p (firstCanvas st)"
proof (cases "containerElements (config st)")
  case None
  obtain e r s1 where a: "call_showCanvas None st = (e, r, s1)"
    by (metis prod_cases3)
  have c1: "core s1 = core st"
    using call_showCanvas_core [of None st] a by simp
  have a': "call_showCanvas None (st\<lparr>pending := p\<rparr>) = (e, r, s1\<lparr>pending := p\<rparr>)"
    using a by (simp add: call_showCanvas_pending with_pending3_def)
  show ?thesis
    using None a a' c1 by (simp add: firstCanvas_def with_pending3_def split: option.splits)
next
  case (Some cs)
  obtain e s1 where a: "setCanvasContent_loop cs st = (e, s1)"
    by (metis prod.exhaust)
  have c1: "core s1 = core st"
    using setCanvasContent_loop_frame [of cs st] a by simp
  have a': "setCanvasContent_loop cs (st\<lparr>pending := p\<rparr>) = (e, s1\<lparr>pending := p\<rparr>)"
    using setCanvasContent_loop_frame [of cs st p] a by (simp add: with_pending_def)
  show ?thesis
    using Some a a' c1
    by (simp add: firstCanvas_def with_pending3_def split: option.splits list.splits)
qed

lemma setCanvasContent_frame:
  "core (snd (setCanvasContent st)) = core st \<and>
   setCanvasContent (st\<lparr>pending := p\<rparr>) = with_pending p (setCanvasContent st)"
proof -
  obtain e fc s1 where a: "firstCanvas st = (e, fc, s1)"
    by (metis prod_cases3)
  have c1: "core s1 = core st"
    using firstCanvas_frame [of st] a by simp
  have a': "firstCanvas (st\<lparr>pending := p\<rparr>) = (e, fc, s1\<lparr>pending := p\<rparr>)"
    using firstCanvas_frame [of st p] a by (simp add: with_pending3_def)
  show ?thesis
    using a a' c1 by (simp add: setCanvasContent_def with_pending_def split: option.splits)
qed

section \<open>The task queue runs empty\<close>

text \<open>
  Running a queued task takes it off the queue and queues at most one new task,
  and only when it leaves the status \<^verbatim>\<open>"Exited"\<close> by a restart; so the queue
  runs empty.
\<close>

definition task_measure :: "state \<Rightarrow> nat" where
  "task_measure st = 2 * pending st + (if status st = Some Exited then 1 else 0)"

lemma restart_closure_queue:
  assumes "status st = Some Exited"
  shows "(pending (snd (restart_closure f st)) = pending st \<and>
          status (snd (restart_closure f st)) = Some Exited) \<or>
         (pending (snd (restart_closure f st)) = pending st + 1 \<and>
          status (snd (restart_closure f st)) \<noteq> Some Exited)"
  using assms
  by (simp add: restart_closure_def loadEmscriptenModule_def setStatus_def Let_def
      split: option.splits)

lemma dispatch_queue:
  "(pending (snd (dispatch st)) = pending st \<and> status (snd (dispatch st)) = status st) \<or>
   (status st = Some Exited \<and> pending (snd (dispatch st)) = pending st + 1 \<and>
    status (snd (dispatch st)) \<noteq> Some Exited)"
proof -
  have keep: "core (snd r) = core st \<Longrightarrow> pending (snd r) = pending st \<and> status (snd r) = status st"
    for r :: "error option \<times> state"
    using core_fields(1,2) [of "snd r" st] by simp
  have rs: "status st = Some Exited \<Longrightarrow>
      (pending (snd (call_restart (st\<lparr>committedStatus := None\<rparr>))) = pending st \<and>
       status (snd (call_restart (st\<lparr>committedStatus := None\<rparr>))) = status st) \<or>
      (pending (snd (call_restart (st\<lparr>committedStatus := None\<rparr>))) = pending st + 1 \<and>
       status (snd (call_restart (st\<lparr>committedStatus := None\<rparr>))) \<noteq> Some Exited)"
    using restart_closure_queue [of "st\<lparr>committedStatus := None\<rparr>"]
    by (simp add: call_restart_def split: option.splits)
  show ?thesis
    using keep [of "setErrorContent st"] keep [of "setLoaderContent st"]
      keep [of "setCanvasContent st"] keep [of "setExitContent st"] rs
      setErrorContent_frame [of st] setLoaderContent_frame [of st]
      setCanvasContent_frame [of st] setExitContent_frame [of st]
    by (simp add: dispatch_def)
qed

lemma handleStatusChange_queue:
  "(pending (snd (handleStatusChange st)) = pending st \<and>
    status (snd (handleStatusChange st)) = status st) \<or>
   (status st = Some Exited \<and>
    pending (snd (handleStatusChange st)) = pending st + 1 \<and>
    status (snd (handleStatusChange st)) \<noteq> Some Exited)"
  using dispatch_queue [of "st\<lparr>committedStatus := status st\<rparr>"]
  by (auto simp add: handleStatusChange_def notify_def split: prod.splits option.splits)

lemma run_task_measure:
  assumes "pending st \<noteq> 0"
  shows "task_measure (run_task st) < task_measure st"
  using handleStatusChange_queue [of "st\<lparr>pending := pending st - 1\<rparr>"] assms
  by (auto simp add: run_task_def task_measure_def split: prod.splits option.splits)

function drain :: "state \<Rightarrow> state" where
  "drain st = (if pending st = 0 then st else drain (run_task st))"
  by pat_completeness auto
termination
  by (relation "measure task_measure") (simp_all add: run_task_measure)

declare drain.simps [simp del]

lemma drain_done: "pending st = 0 \<Longrightarrow> drain st = st"
  by (simp add: drain.simps)

lemma drain_step: "pending st = Suc n \<Longrightarrow> drain st = drain (run_task st)"
  by (subst drain.simps) simp

text \<open>Queued reactions find nothing to do while the committed status is the status.\<close>

lemma drain_quiet:
  "committedStatus st = status st \<Longrightarrow> drain st = st\<lparr>pending := 0\<rparr>"
proof (induction "pending st" arbitrary: st)
  case 0
  then show ?case by (simp add: drain_done)
next
  case (Suc n)
  have r: "run_task st = st\<lparr>pending := n\<rparr>"
    using Suc.prems Suc.hyps(2) [symmetric] by (simp add: run_task_def handleStatusChange_def)
  have "drain st = drain (st\<lparr>pending := n\<rparr>)"
    using drain_step [of st n] Suc.hyps(2) [symmetric] r by simp
  also have "\<dots> = st\<lparr>pending := n\<rparr>\<lparr>pending := 0\<rparr>"
    using Suc.hyps(1) [of "st\<lparr>pending := n\<rparr>"] Suc.prems by simp
  finally show ?case by simp
qed

section \<open>An example page\<close>

definition example_host :: host where
  "example_host =
     \<lparr>typeof_WebAssembly = ''object'', document_createElement = True,
      WebGLRenderingContext = True, getContext_webgl = Some True\<rparr>"

definition example_window :: window where
  "example_window =
     \<lparr>host = example_host, Module_preRun = Some [], children = (\<lambda>c. []),
      self_error = None, self_module = None, self_restartCount = 0,
      pending = 0, trace = []\<rparr>"

definition example_config :: config where
  "example_config =
     \<lparr>containerElements = None, showError = None, showLoader = None,
      showCanvas = None, showExit = None, path = None, restartMode = None,
      restartType = None, restartLimit = None, stdoutEnabled = None,
      stderrEnabled = None, environment = None, statusChanged = False,
      restart = None\<rparr>"

definition ordinary_exit :: exception where
  "ordinary_exit = \<lparr>name = ''ExitStatus'', toString = ''ExitStatus''\<rparr>"

text \<open>
  A page that constructs a loader with \<open>cfg\<close>, lets the queue run empty, loads
  factory 0 and lets the queue run empty again.
\<close>

definition loaded :: "config \<Rightarrow> state" where
  "loaded cfg = drain (snd (loadEmscriptenModule 0 (drain (QtLoader cfg example_window))))"

lemmas example_defs = example_host_def example_window_def example_config_def
lemmas op_defs = QtLoader_def normalize_config_def normalize_path_def or_default_def
  setStatus_def run_task_def handleStatusChange_def dispatch_def notify_def
  loadEmscriptenModule_def restart_closure_def call_restart_def restart_wanted_def
  restartLimit_exceeded_def
  webAssemblySupported_def webGLSupported_def webGLSupported_try_def canLoadQt_def
  setErrorContent_def setLoaderContent_def setCanvasContent_def setExitContent_def firstCanvas_def
  call_showError_def call_showLoader_def call_showCanvas_def call_showExit_def call_default_def
  appendChild_def removeChildren_def onAbort_def quit_def module_setStatus_def

lemma loaded_example:
  "loaded example_config =
     \<lparr>host = example_host, Module_preRun = Some [EnvInjection], children = (\<lambda>c. []),
      self_error = None, self_module = Some \<lparr>canvas = RUndefined, preRun = None\<rparr>,
      self_restartCount = 0, pending = 0, trace = [CreateModule 0],
      config = example_config\<lparr>restartMode := Some ''DoNotRestart'', restartLimit := Some 10,
        stdoutEnabled := Some True, stderrEnabled := Some True, path := Some [],
        restart := Some 0\<rparr>,
      webAssemblySupported_flag = True, webGLSupported_flag = True, canLoadQt_flag = True,
      canLoadApplication_flag = True, status = Some Loading, crashed = False,
      exitCode = None, exitText = None, committedStatus = Some Loading\<rparr>"
  by (simp add: loaded_def example_defs op_defs drain_step drain_done)

section \<open>Reactions that commit a status\<close>

text \<open>
  A reaction that finds a new status, and does not restart, changes nothing
  outside the presentation, sets the committed status, and does the same
  whatever the number of tasks queued behind it; the tasks behind it then find
  nothing to do.
\<close>

lemma restart_wanted_pending [simp]:
  "restart_wanted (st\<lparr>pending := p\<rparr>) = restart_wanted st"
  by (simp add: restart_wanted_def)

lemma dispatch_frame:
  assumes "\<not> (status st = Some Exited \<and> restart_wanted st)"
  shows "core (snd (dispatch st)) = core st \<and>
         dispatch (st\<lparr>pending := p\<rparr>) = with_pending p (dispatch st)"
  using assms setErrorContent_frame [of st p] setLoaderContent_frame [of st p]
    setCanvasContent_frame [of st p] setExitContent_frame [of st p]
  by (simp add: dispatch_def with_pending_def)

lemma notify_frame:
  "core (notify st) = core st \<and> notify (st\<lparr>pending := p\<rparr>) = (notify st)\<lparr>pending := p\<rparr>"
  by (simp add: notify_def)

lemma handleStatusChange_frame:
  assumes "committedStatus st \<noteq> status st"
    and "\<not> (status st = Some Exited \<and> restart_wanted st)"
  shows "core (snd (handleStatusChange st)) = core (st\<lparr>committedStatus := status st\<rparr>) \<and>
         handleStatusChange (st\<lparr>pending := p\<rparr>) = with_pending p (handleStatusChange st)"
proof -
  define st1 where "st1 = st\<lparr>committedStatus := status st\<rparr>"
  have n: "\<not> (status st1 = Some Exited \<and> restart_wanted st1)"
    using assms(2) by (simp add: st1_def restart_wanted_def)
  obtain e s2 where d: "dispatch st1 = (e, s2)"
    by (metis prod.exhaust)
  have c: "core s2 = core st1"
    using dispatch_frame [OF n] d by simp
  have d': "dispatch (st1\<lparr>pending := p\<rparr>) = (e, s2\<lparr>pending := p\<rparr>)"
    using dispatch_frame [OF n, of p] d by (simp add: with_pending_def)
  have st1p: "st\<lparr>pending := p, committedStatus := status st\<rparr> = st1\<lparr>pending := p\<rparr>"
    by (simp add: st1_def)
  show ?thesis
    using assms(1) d d' c notify_frame [of s2 p]
    by (cases e) (simp_all add: handleStatusChange_def st1_def [symmetric] st1p with_pending_def)
qed

lemma run_task_commit:
  assumes "committedStatus st \<noteq> status st"
    and "\<not> (status st = Some Exited \<and> restart_wanted st)"
  shows "run_task (st\<lparr>pending := Suc n\<rparr>) = (run_task (st\<lparr>pending := 1\<rparr>))\<lparr>pending := n\<rparr> \<and>
         pending (run_task (st\<lparr>pending := 1\<rparr>)) = 0 \<and>
         committedStatus (run_task (st\<lparr>pending := 1\<rparr>)) = status (run_task (st\<lparr>pending := 1\<rparr>))"
proof -
  obtain e s2 where h: "handleStatusChange st = (e, s2)"
    by (metis prod.exhaust)
  have c: "core s2 = core (st\<lparr>committedStatus := status st\<rparr>)"
    using handleStatusChange_frame [OF assms] h by simp
  have f: "committedStatus s2 = status s2"
    using core_fields(2,4) [OF c] by simp
  have hp: "handleStatusChange (st\<lparr>pending := p\<rparr>) = (e, s2\<lparr>pending := p\<rparr>)" for p
    using handleStatusChange_frame [OF assms, of p] h by (simp add: with_pending_def)
  show ?thesis
    using hp [of n] hp [of 0] f by (cases e) (simp_all add: run_task_def)
qed

lemma drain_commit:
  assumes "committedStatus st \<noteq> status st"
    and "\<not> (status st = Some Exited \<and> restart_wanted st)"
  shows "drain (st\<lparr>pending := Suc n\<rparr>) = run_task (st\<lparr>pending := 1\<rparr>)"
proof -
  define T where "T = run_task (st\<lparr>pending := 1\<rparr>)"
  have t: "run_task (st\<lparr>pending := Suc n\<rparr>) = T\<lparr>pending := n\<rparr>" "pending T = 0"
    "committedStatus T = status T"
    using run_task_commit [OF assms, of n] by (simp_all add: T_def)
  have "drain (st\<lparr>pending := Suc n\<rparr>) = drain (T\<lparr>pending := n\<rparr>)"
    using drain_step [of "st\<lparr>pending := Suc n\<rparr>" n] t(1) by simp
  also have "\<dots> = T\<lparr>pending := n\<rparr>\<lparr>pending := 0\<rparr>"
    using drain_quiet [of "T\<lparr>pending := n\<rparr>"] t(3) by simp
  also have "\<dots> = T"
    using t(2) by simp
  finally show ?thesis by (simp add: T_def)
qed

text \<open>
  A reaction that commits \<^verbatim>\<open>"Exited"\<close> and restarts leaves the committed
  status undefined and, through the status setter called by the restart, queues
  exactly one more task; that task commits the status the restart has set.
\<close>

lemma setStatus_pending:
  "status st \<noteq> Some s \<Longrightarrow>
     setStatus s (st\<lparr>pending := p\<rparr>) = (setStatus s st)\<lparr>pending := Suc p\<rparr> \<and>
     status (setStatus s st) = Some s \<and>
     committedStatus (setStatus s st) = committedStatus st"
  by (simp add: setStatus_def)

lemma loadEmscriptenModule_pending:
  assumes "status st = Some Exited" and "Module_preRun st \<noteq> None"
  shows "loadEmscriptenModule f (st\<lparr>pending := p\<rparr>) =
           (None, (snd (loadEmscriptenModule f st))\<lparr>pending := Suc p\<rparr>) \<and>
         committedStatus (snd (loadEmscriptenModule f st)) = committedStatus st \<and>
         (status (snd (loadEmscriptenModule f st)) = Some Loading \<or>
          status (snd (loadEmscriptenModule f st)) = Some Error)"
proof (cases "webGLSupported (host st)")
  case True
  obtain hooks where "Module_preRun st = Some hooks"
    using assms(2) by auto
  then show ?thesis
    using True assms(1)
    by (simp add: loadEmscriptenModule_def webAssemblySupported_def setStatus_def Let_def)
next
  case False
  then show ?thesis
    using assms(1)
    by (simp add: loadEmscriptenModule_def webAssemblySupported_def setStatus_def)
qed

text \<open>
  The first statements of \<^verbatim>\<open>config.restart\<close>, up to the comparison with the
  limit: the page reload, if configured, and the increment of the count.
\<close>

definition counted :: "state \<Rightarrow> state" where
  "counted st =
     (if restartType (config st) = Some ''ReloadPage''
      then st\<lparr>trace := trace st @ [Reload]\<rparr> else st)
     \<lparr>self_restartCount := self_restartCount st + 1\<rparr>"

lemma restart_closure_counted:
  "restart_closure f st =
     (if restartLimit_exceeded (self_restartCount st + 1) (restartLimit (config st)) then
        (None, setStatus Error ((counted st)\<lparr>self_error := Some
           ''Error: This application has crashed too many times and has been disabled. Reload the page to try again.''\<rparr>))
      else loadEmscriptenModule f (counted st))"
  by (simp add: restart_closure_def counted_def Let_def)

lemma counted_fields:
  "counted (st\<lparr>pending := p\<rparr>) = (counted st)\<lparr>pending := p\<rparr>"
  "status (counted st) = status st" "committedStatus (counted st) = committedStatus st"
  "Module_preRun (counted st) = Module_preRun st"
  by (simp_all add: counted_def)

lemma restart_closure_pending:
  assumes "status st = Some Exited" and "Module_preRun st \<noteq> None"
  shows "restart_closure f (st\<lparr>pending := p\<rparr>) =
           (None, (snd (restart_closure f st))\<lparr>pending := Suc p\<rparr>) \<and>
         committedStatus (snd (restart_closure f st)) = committedStatus st \<and>
         (status (snd (restart_closure f st)) = Some Loading \<or>
          status (snd (restart_closure f st)) = Some Error)"
proof (cases "restartLimit_exceeded (self_restartCount st + 1) (restartLimit (config st))")
  case True
  define sE where "sE = (counted st)\<lparr>self_error := Some
           ''Error: This application has crashed too many times and has been disabled. Reload the page to try again.''\<rparr>"
  have s: "status sE \<noteq> Some Error" "committedStatus sE = committedStatus st"
    using assms(1) by (simp_all add: sE_def counted_fields)
  have p: "(counted st)\<lparr>pending := p, self_error := Some
           ''Error: This application has crashed too many times and has been disabled. Reload the page to try again.''\<rparr> = sE\<lparr>pending := p\<rparr>"
    by (simp add: sE_def)
  show ?thesis
    using True setStatus_pending [OF s(1), of p] s(2)
    by (simp add: restart_closure_counted counted_fields p sE_def [symmetric])
next
  case False
  have c: "status (counted st) = Some Exited" "Module_preRun (counted st) \<noteq> None"
    using assms by (simp_all add: counted_fields)
  show ?thesis
    using False loadEmscriptenModule_pending [OF c, of f p]
    by (simp add: restart_closure_counted counted_fields)
qed

lemma handleStatusChange_restart:
  assumes "status st = Some Exited" and "committedStatus st \<noteq> Some Exited"
    and "restart_wanted st" and "restart (config st) \<noteq> None" and "Module_preRun st \<noteq> None"
  shows "\<exists>s2. (\<forall>p. handleStatusChange (st\<lparr>pending := p\<rparr>) = (None, s2\<lparr>pending := Suc p\<rparr>)) \<and>
           committedStatus s2 = None \<and> (status s2 = Some Loading \<or> status s2 = Some Error)"
proof -
  obtain f where f: "restart (config st) = Some f"
    using assms(4) by auto
  define s0 where "s0 = st\<lparr>committedStatus := None\<rparr>"
  have s0: "status s0 = Some Exited" "Module_preRun s0 \<noteq> None"
    using assms(1,5) by (simp_all add: s0_def)
  define r where "r = snd (restart_closure f s0)"
  have rc: "restart_closure f (s0\<lparr>pending := p\<rparr>) = (None, r\<lparr>pending := Suc p\<rparr>)" for p
    using restart_closure_pending [OF s0, of f p] by (simp add: r_def)
  have rf: "committedStatus r = None" "status r = Some Loading \<or> status r = Some Error"
    using restart_closure_pending [OF s0, of f 0] by (simp_all add: r_def s0_def)
  have w: "restart_wanted (st\<lparr>pending := p, committedStatus := Some Exited\<rparr>)" for p
    using assms(3) by (simp add: restart_wanted_def)
  have sp: "st\<lparr>pending := p, committedStatus := None\<rparr> = s0\<lparr>pending := p\<rparr>" for p
    by (simp add: s0_def)
  have cf: "restart (config s0) = Some f"
    using f by (simp add: s0_def)
  have d: "dispatch (st\<lparr>pending := p, committedStatus := Some Exited\<rparr>) = (None, r\<lparr>pending := Suc p\<rparr>)" for p
    using w [of p] assms(1) cf rc [of p]
    by (simp add: dispatch_def call_restart_def sp)
  have n: "notify (r\<lparr>pending := Suc p\<rparr>) = (notify r)\<lparr>pending := Suc p\<rparr>" for p
    by (simp add: notify_def)
  have h: "handleStatusChange (st\<lparr>pending := p\<rparr>) = (None, (notify r)\<lparr>pending := Suc p\<rparr>)" for p
    using assms(1,2) d [of p] n [of p] by (simp add: handleStatusChange_def)
  have "committedStatus (notify r) = None \<and>
      (status (notify r) = Some Loading \<or> status (notify r) = Some Error)"
    using rf by (simp add: notify_def)
  then show ?thesis using h by blast
qed

lemma drain_restart:
  assumes "status st = Some Exited" and "committedStatus st \<noteq> Some Exited"
    and "restart_wanted st" and "restart (config st) \<noteq> None" and "Module_preRun st \<noteq> None"
  shows "drain (st\<lparr>pending := Suc n\<rparr>) = run_task (run_task (st\<lparr>pending := 1\<rparr>))"
proof -
  obtain s2 where h: "\<And>p. handleStatusChange (st\<lparr>pending := p\<rparr>) = (None, s2\<lparr>pending := Suc p\<rparr>)"
    and c: "committedStatus s2 = None" and s: "status s2 = Some Loading \<or> status s2 = Some Error"
    using handleStatusChange_restart [OF assms] by blast
  have r1: "run_task (st\<lparr>pending := 1\<rparr>) = s2\<lparr>pending := 1\<rparr>"
    using h [of 0] by (simp add: run_task_def)
  have rn: "run_task (st\<lparr>pending := Suc n\<rparr>) = s2\<lparr>pending := Suc n\<rparr>"
    using h [of n] by (simp add: run_task_def)
  have n1: "committedStatus s2 \<noteq> status s2" using c s by auto
  have n2: "\<not> (status s2 = Some Exited \<and> restart_wanted s2)" using s by auto
  have "drain (st\<lparr>pending := Suc n\<rparr>) = drain (s2\<lparr>pending := Suc n\<rparr>)"
    using drain_step [of "st\<lparr>pending := Suc n\<rparr>" n] rn by simp
  also have "\<dots> = run_task (s2\<lparr>pending := 1\<rparr>)"
    by (rule drain_commit [OF n1 n2])
  finally show ?thesis using r1 by simp
qed

section \<open>C1: the commit is debounced\<close>

text \<open>A synchronous burst of calls of the status setter.\<close>

definition burst :: "status list \<Rightarrow> state \<Rightarrow> state" where
  "burst ss st = fold setStatus ss st"

text \<open>
  A page in external mode with an observer, a canvas callback and an exit
  callback, loaded and settled.
\<close>

definition observed_page :: state where
  "observed_page =
     loaded (example_config\<lparr>statusChanged := True, showCanvas := Some (User None),
               showExit := Some (User None)\<rparr>)"

text \<open>
  The same page without the canvas and exit callbacks, with a loader callback
  and the restart mode \<^verbatim>\<open>"RestartOnExit"\<close>.
\<close>

definition restarting_page :: state where
  "restarting_page =
     loaded (example_config\<lparr>statusChanged := True, showLoader := Some (User None),
               restartMode := Some ''RestartOnExit''\<rparr>)"

lemma burst_form:
  "\<exists>k. burst ss st = st\<lparr>status := (if ss = [] then status st else Some (last ss)),
                        pending := pending st + k\<rparr> \<and>
       (ss \<noteq> [] \<and> status st \<noteq> Some (last ss) \<longrightarrow> 0 < k)"
proof (induction ss rule: rev_induct)
  case Nil
  show ?case by (rule exI [of _ 0]) (simp add: burst_def)
next
  case (snoc s ss)
  then obtain k where k: "burst ss st = st\<lparr>status := (if ss = [] then status st else Some (last ss)),
                        pending := pending st + k\<rparr>"
    and kp: "ss \<noteq> [] \<and> status st \<noteq> Some (last ss) \<longrightarrow> 0 < k"
    by blast
  have step: "burst (ss @ [s]) st = setStatus s (burst ss st)"
    by (simp add: burst_def)
  show ?case
  proof (cases "status (burst ss st) = Some s")
    case True
    then have "burst (ss @ [s]) st = st\<lparr>status := Some s, pending := pending st + k\<rparr>"
      using step k by (simp add: setStatus_def split: if_splits)
    moreover have "status st \<noteq> Some s \<longrightarrow> 0 < k"
      using True k kp by (cases "ss = []") auto
    ultimately show ?thesis by (intro exI [of _ k]) simp
  next
    case False
    then have "burst (ss @ [s]) st = st\<lparr>status := Some s, pending := pending st + Suc k\<rparr>"
      using step k by (simp add: setStatus_def)
    then show ?thesis by (intro exI [of _ "Suc k"]) simp
  qed
qed

lemma observed_page_fields:
  "pending observed_page = 0"
  "committedStatus observed_page = Some Loading"
  "status observed_page = Some Loading"
  "restart (config observed_page) = Some 0"
  "Module_preRun observed_page = Some [EnvInjection]"
  "trace observed_page =
     [StatusChanged (Some Created), CreateModule 0, StatusChanged (Some Loading)]"
  "\<not> restart_wanted observed_page"
  by (simp_all add: observed_page_def loaded_def example_defs op_defs drain_step drain_done)

lemma restarting_page_fields:
  "pending restarting_page = 0"
  "committedStatus restarting_page = Some Loading"
  "status restarting_page = Some Loading"
  "restart (config restarting_page) = Some 0"
  "Module_preRun restarting_page = Some [EnvInjection]"
  "restart_wanted restarting_page"
  by (simp_all add: restarting_page_def loaded_def example_defs op_defs drain_step drain_done)

lemma observed_page_settled: "observed_page\<lparr>pending := 0\<rparr> = observed_page"
  using observed_page_fields(1) [symmetric] by simp

lemma restarting_page_settled: "restarting_page\<lparr>pending := 0\<rparr> = restarting_page"
  using restarting_page_fields(1) [symmetric] by simp

text \<open>
  One status-setter call with a new status on a settled loader, and the reaction
  it queues: the reaction passes its guard, commits the new status and runs the
  chain once, on that status.
\<close>

lemma reaction_after_setStatus:
  assumes "pending st = 0" and "committedStatus st = status st" and "status st \<noteq> Some s"
  shows "run_task (setStatus s st) =
           (case dispatch (st\<lparr>status := Some s, committedStatus := Some s\<rparr>) of
              (None, st2) \<Rightarrow> notify st2
            | (Some e, st2) \<Rightarrow> st2\<lparr>trace := trace st2 @ [Uncaught e]\<rparr>)"
proof -
  have p: "st\<lparr>pending := 0\<rparr> = st"
    using assms(1) [symmetric] by simp
  have "(setStatus s st)\<lparr>pending := pending (setStatus s st) - 1\<rparr> = (st\<lparr>pending := 0\<rparr>)\<lparr>status := Some s\<rparr>"
    using assms(1,3) by (simp add: setStatus_def)
  then have q: "(setStatus s st)\<lparr>pending := pending (setStatus s st) - 1\<rparr> = st\<lparr>status := Some s\<rparr>"
    using p by simp
  have g: "committedStatus (st\<lparr>status := Some s\<rparr>) \<noteq> status (st\<lparr>status := Some s\<rparr>)"
    using assms(2,3) by simp
  obtain e st2 where d: "dispatch (st\<lparr>status := Some s, committedStatus := Some s\<rparr>) = (e, st2)"
    by (metis prod.exhaust)
  have h: "handleStatusChange (st\<lparr>status := Some s\<rparr>) =
      (case e of Some err \<Rightarrow> (Some err, st2) | None \<Rightarrow> (None, notify st2))"
    using g d by (simp add: handleStatusChange_def split: option.splits)
  show ?thesis
    unfolding run_task_def q h d by (cases e) simp_all
qed

text \<open>
  C1. Take a loader whose committed status is its status (reactions still
  queued from before find nothing to do) and any non-empty burst of
  status-setter calls, and let the queue run empty. If the last status of the
  burst is the status the loader had, no reaction does anything. Otherwise the
  outcome is that of one status-setter call with the last status of the burst
  followed by one deferred reaction: the chain of \<^verbatim>\<open>handleStatusChange\<close>
  runs once, on the last status, and the earlier statuses of the burst are never
  rendered or notified. When that one reaction restarts the application (last
  status \<^verbatim>\<open>"Exited"\<close> and a restart wanted; a restart is possible whenever a
  module can report an exit), the restart's own status-setter call queues one
  reaction, which runs as well. In particular two calls in succession with the
  same value leave the state that one call leaves: one reaction queued if the
  value is new, none otherwise.
\<close>

theorem burst_debounced:
  assumes "committedStatus st = status st" and "ss \<noteq> []"
    and "last ss = Exited \<and> restart_wanted st \<longrightarrow>
           restart (config st) \<noteq> None \<and> Module_preRun st \<noteq> None"
  shows "drain (burst ss st) =
           (if status st = Some (last ss) then st\<lparr>pending := 0\<rparr>
            else if last ss = Exited \<and> restart_wanted st
                 then run_task (run_task (setStatus Exited (st\<lparr>pending := 0\<rparr>)))
                 else run_task (setStatus (last ss) (st\<lparr>pending := 0\<rparr>))) \<and>
         burst [s, s] st = burst [s] st"
proof -
  obtain k where k: "burst ss st = st\<lparr>status := Some (last ss), pending := pending st + k\<rparr>"
    and kp: "status st \<noteq> Some (last ss) \<longrightarrow> 0 < k"
    using burst_form [of ss st] assms(2) by auto
  define s1 where "s1 = st\<lparr>status := Some (last ss)\<rparr>"
  have b: "burst ss st = s1\<lparr>pending := pending st + k\<rparr>"
    using k by (simp add: s1_def)
  have idem: "burst [s, s] st = burst [s] st"
    by (simp add: burst_def setStatus_def)
  have main: "drain (burst ss st) =
           (if status st = Some (last ss) then st\<lparr>pending := 0\<rparr>
            else if last ss = Exited \<and> restart_wanted st
                 then run_task (run_task (setStatus Exited (st\<lparr>pending := 0\<rparr>)))
                 else run_task (setStatus (last ss) (st\<lparr>pending := 0\<rparr>)))"
  proof (cases "status st = Some (last ss)")
    case True
    have "s1 = st" using True by (simp add: s1_def)
    then have "drain (burst ss st) = st\<lparr>pending := 0\<rparr>"
      using drain_quiet [of "st\<lparr>pending := pending st + k\<rparr>"] b assms(1) by simp
    then show ?thesis using True by simp
  next
    case False
    then obtain n where n: "pending st + k = Suc n"
      using kp by (cases k) auto
    have one: "setStatus (last ss) (st\<lparr>pending := 0\<rparr>) = s1\<lparr>pending := 1\<rparr>"
      using False by (simp add: setStatus_def s1_def)
    have c1: "committedStatus s1 \<noteq> status s1"
      using False assms(1) by (simp add: s1_def)
    show ?thesis
    proof (cases "last ss = Exited \<and> restart_wanted st")
      case True
      have e: "status s1 = Some Exited" "committedStatus s1 \<noteq> Some Exited"
        "restart_wanted s1" "restart (config s1) \<noteq> None" "Module_preRun s1 \<noteq> None"
        using True False assms(1,3) by (simp_all add: s1_def restart_wanted_def)
      have "drain (burst ss st) = run_task (run_task (s1\<lparr>pending := 1\<rparr>))"
        using drain_restart [OF e, of n] b n by simp
      then show ?thesis using True False one by simp
    next
      case nr: False
      have c2: "\<not> (status s1 = Some Exited \<and> restart_wanted s1)"
        using nr by (auto simp add: s1_def restart_wanted_def)
      have "drain (burst ss st) = run_task (s1\<lparr>pending := 1\<rparr>)"
        using drain_commit [OF c1 c2, of n] b n by simp
      then show ?thesis using nr False one by auto
    qed
  qed
  show ?thesis using main idem by simp
qed

theorem burst_debounced_witness:
  "pending observed_page = 0 \<and> committedStatus observed_page = status observed_page \<and>
   [Running, Exited] \<noteq> [] \<and> last [Running, Exited] = Exited \<and>
   trace (drain (burst [Running, Exited] observed_page)) =
     [StatusChanged (Some Created), CreateModule 0, StatusChanged (Some Loading),
      ShowExit False None None, StatusChanged (Some Exited)] \<and>
   pending restarting_page = 0 \<and> committedStatus restarting_page = status restarting_page \<and>
   restart_wanted restarting_page \<and>
   restart (config restarting_page) \<noteq> None \<and> Module_preRun restarting_page \<noteq> None \<and>
   trace (drain (burst [Running, Exited] restarting_page)) =
     [StatusChanged (Some Created), CreateModule 0, ShowLoader None,
      StatusChanged (Some Loading), CreateModule 0, StatusChanged (Some Loading),
      ShowLoader None, StatusChanged (Some Loading)]"
proof -
  have r: "trace (run_task (setStatus Exited observed_page)) =
     [StatusChanged (Some Created), CreateModule 0, StatusChanged (Some Loading),
      ShowExit False None None, StatusChanged (Some Exited)]"
    by (simp add: observed_page_def loaded_def example_defs op_defs drain_step drain_done)
  have r': "trace (run_task (run_task (setStatus Exited restarting_page))) =
     [StatusChanged (Some Created), CreateModule 0, ShowLoader None,
      StatusChanged (Some Loading), CreateModule 0, StatusChanged (Some Loading),
      ShowLoader None, StatusChanged (Some Loading)]"
    by (simp add: restarting_page_def loaded_def example_defs op_defs drain_step drain_done)
  show ?thesis
    using observed_page_fields r restarting_page_fields r'
      burst_debounced [of observed_page "[Running, Exited]" Exited]
      burst_debounced [of restarting_page "[Running, Exited]" Exited]
      observed_page_settled restarting_page_settled
    by simp
qed

section \<open>C2: the restart limit\<close>

definition crash_config :: config where
  "crash_config = example_config\<lparr>restartMode := Some ''RestartOnCrash'', restartLimit := Some 1\<rparr>"

text \<open>
  The page of \<open>loaded crash_config\<close> after a first abort (restart count 0,
  limit 1); and after the restart that abort causes and a second abort (restart
  count 1, the limit).
\<close>

definition crashed_once :: state where
  "crashed_once = onAbort ''boom'' (loaded crash_config)"

definition crashed_twice :: state where
  "crashed_twice = onAbort ''again'' (drain crashed_once)"

lemma crashed_twice_fields:
  "status crashed_twice = Some Exited"
  "committedStatus crashed_twice = Some Loading"
  "crashed crashed_twice"
  "restartMode (config crashed_twice) = Some ''RestartOnCrash''"
  "restartLimit (config crashed_twice) = Some 1"
  "restart (config crashed_twice) = Some 0"
  "self_restartCount crashed_twice = 1"
  "trace crashed_twice = [CreateModule 0, CreateModule 0]"
  "pending crashed_twice = 1"
  "canLoadQt (host crashed_twice)"
  "Module_preRun crashed_twice = Some [EnvInjection, EnvInjection]"
  by (simp_all add: crashed_twice_def crashed_once_def crash_config_def loaded_def example_defs op_defs
      drain_step drain_done)

lemma crashed_once_fields:
  "status crashed_once = Some Exited"
  "committedStatus crashed_once = Some Loading"
  "crashed crashed_once"
  "restartMode (config crashed_once) = Some ''RestartOnCrash''"
  "restartLimit (config crashed_once) = Some 1"
  "restart (config crashed_once) = Some 0"
  "self_restartCount crashed_once = 0"
  "canLoadQt (host crashed_once)"
  "Module_preRun crashed_once = Some [EnvInjection]"
  by (simp_all add: crashed_once_def crash_config_def loaded_def example_defs op_defs
      drain_step drain_done)

text \<open>
  C2 as stated fails: \<^verbatim>\<open>config.restart\<close> increments the count before it
  compares, so a restart decision entered with the count equal to the limit
  halts. With limit 1, the second abort finds the count at 1: the status becomes
  \<^verbatim>\<open>"Error"\<close> with the message that the application crashed too many times,
  and the module factory is not called again.
\<close>

theorem restart_at_limit_counterexample:
  "restartMode (config crashed_twice) = Some ''RestartOnCrash'' \<and> crashed crashed_twice \<and>
   restartLimit (config crashed_twice) = Some 1 \<and> self_restartCount crashed_twice = 1 \<and>
   status (drain crashed_twice) = Some Error \<and>
   self_error (drain crashed_twice) = Some
     ''Error: This application has crashed too many times and has been disabled. Reload the page to try again.'' \<and>
   trace (drain crashed_twice) = trace crashed_twice"
  by (simp add: crashed_twice_def crashed_once_def crash_config_def loaded_def example_defs op_defs
      drain_step drain_done)

text \<open>
  C2, amended. With mode \<^verbatim>\<open>"RestartOnCrash"\<close> and \<^verbatim>\<open>crashed\<close> true, in a
  host that can load the application, a restart decision entered with a count
  below the limit (up to limit - 1) restarts: the count goes up by one, the
  factory is called again and the status becomes \<^verbatim>\<open>"Loading"\<close>. One entered
  with the count equal to the limit, or above it, halts: the status becomes
  \<^verbatim>\<open>"Error"\<close> with the message that the application crashed too many times
  and the factory is not called.
\<close>

theorem restart_limit_boundary:
  assumes "status st = Some Exited" and "committedStatus st \<noteq> Some Exited"
    and "restartMode (config st) = Some ''RestartOnCrash''" and "crashed st"
    and "restart (config st) = Some f" and "restartLimit (config st) = Some limit"
    and "canLoadQt (host st)" and "Module_preRun st \<noteq> None"
  shows "(self_restartCount st < limit \<longrightarrow>
            status (snd (handleStatusChange st)) = Some Loading \<and>
            self_restartCount (snd (handleStatusChange st)) = self_restartCount st + 1 \<and>
            trace (snd (handleStatusChange st)) =
              trace st @ (if restartType (config st) = Some ''ReloadPage'' then [Reload] else [])
                @ [CreateModule f]
                @ (if statusChanged (config st) then [StatusChanged (Some Loading)] else [])) \<and>
         (self_restartCount st \<ge> limit \<longrightarrow>
            status (snd (handleStatusChange st)) = Some Error \<and>
            self_restartCount (snd (handleStatusChange st)) = self_restartCount st + 1 \<and>
            self_error (snd (handleStatusChange st)) = Some
              ''Error: This application has crashed too many times and has been disabled. Reload the page to try again.'' \<and>
            trace (snd (handleStatusChange st)) =
              trace st @ (if restartType (config st) = Some ''ReloadPage'' then [Reload] else [])
                @ (if statusChanged (config st) then [StatusChanged (Some Error)] else []))"
  using assms
  by (auto simp add: handleStatusChange_def dispatch_def notify_def restart_wanted_def
      call_restart_def restart_closure_def restartLimit_exceeded_def loadEmscriptenModule_def
      canLoadQt_def setStatus_def Let_def)

theorem restart_limit_boundary_witness:
  "status crashed_once = Some Exited \<and> committedStatus crashed_once \<noteq> Some Exited \<and>
   restartMode (config crashed_once) = Some ''RestartOnCrash'' \<and> crashed crashed_once \<and>
   restart (config crashed_once) = Some 0 \<and> restartLimit (config crashed_once) = Some 1 \<and>
   canLoadQt (host crashed_once) \<and> Module_preRun crashed_once \<noteq> None \<and>
   self_restartCount crashed_once < 1 \<and>
   status (snd (handleStatusChange crashed_once)) = Some Loading \<and>
   status crashed_twice = Some Exited \<and> committedStatus crashed_twice \<noteq> Some Exited \<and>
   restartMode (config crashed_twice) = Some ''RestartOnCrash'' \<and> crashed crashed_twice \<and>
   restart (config crashed_twice) = Some 0 \<and> restartLimit (config crashed_twice) = Some 1 \<and>
   canLoadQt (host crashed_twice) \<and> Module_preRun crashed_twice \<noteq> None \<and>
   self_restartCount crashed_twice \<ge> 1 \<and>
   status (snd (handleStatusChange crashed_twice)) = Some Error"
  using crashed_once_fields crashed_twice_fields
    restart_limit_boundary [of crashed_once 0 1]
    restart_limit_boundary [of crashed_twice 0 1]
  by simp

section \<open>C3: when a restart is triggered\<close>

text \<open>
  C3. When the deferred reaction commits the status \<^verbatim>\<open>"Exited"\<close>, it calls
  \<^verbatim>\<open>config.restart()\<close> (which counts the restart first) if and only if the
  restart mode is \<^verbatim>\<open>"RestartOnExit"\<close>, or it is \<^verbatim>\<open>"RestartOnCrash"\<close> and
  \<^verbatim>\<open>crashed\<close> is true. Otherwise, so in particular with
  \<^verbatim>\<open>"RestartOnCrash"\<close> and \<^verbatim>\<open>crashed\<close> false, nothing is restarted,
  whatever the restart count and limit are: the count stays and the status
  \<^verbatim>\<open>"Exited"\<close> is committed.
\<close>

theorem restart_triggered_iff:
  assumes "status st = Some Exited" and "committedStatus st \<noteq> Some Exited"
    and "restart (config st) = Some f"
  shows "(self_restartCount (snd (handleStatusChange st)) = self_restartCount st + 1) =
           (restartMode (config st) = Some ''RestartOnExit'' \<or>
            restartMode (config st) = Some ''RestartOnCrash'' \<and> crashed st) \<and>
         (\<not> (restartMode (config st) = Some ''RestartOnExit'' \<or>
             restartMode (config st) = Some ''RestartOnCrash'' \<and> crashed st) \<longrightarrow>
            self_restartCount (snd (handleStatusChange st)) = self_restartCount st \<and>
            status (snd (handleStatusChange st)) = Some Exited \<and>
            committedStatus (snd (handleStatusChange st)) = Some Exited)"
proof -
  define st1 where "st1 = st\<lparr>committedStatus := Some Exited\<rparr>"
  have c: "core (snd (setExitContent st1)) = core st1"
    using setExitContent_frame [of st1] by simp
  have keep: "self_restartCount (snd (setExitContent st1)) = self_restartCount st"
    "status (snd (setExitContent st1)) = Some Exited"
    "committedStatus (snd (setExitContent st1)) = Some Exited"
    "config (snd (setExitContent st1)) = config st"
    using core_fields [OF c] assms by (simp_all add: st1_def)
  have w: "restart_wanted st1 =
      (restartMode (config st) = Some ''RestartOnExit'' \<or>
       restartMode (config st) = Some ''RestartOnCrash'' \<and> crashed st)"
    by (simp add: restart_wanted_def st1_def)
  have r: "self_restartCount (snd (call_restart (st1\<lparr>committedStatus := None\<rparr>))) =
      self_restartCount st + 1"
    using assms
    by (simp add: call_restart_def restart_closure_def loadEmscriptenModule_def setStatus_def
        Let_def st1_def split: option.splits)
  have h: "handleStatusChange st =
      (case (if restart_wanted st1 then call_restart (st1\<lparr>committedStatus := None\<rparr>)
             else setExitContent st1) of
         (Some err, st2) \<Rightarrow> (Some err, st2) | (None, st2) \<Rightarrow> (None, notify st2))"
    using assms by (simp add: handleStatusChange_def dispatch_def st1_def)
  show ?thesis
  proof (cases "restart_wanted st1")
    case True
    then show ?thesis
      using h r w by (auto simp add: notify_def split: prod.splits option.splits)
  next
    case False
    then show ?thesis
      using h keep w by (auto simp add: notify_def split: prod.splits option.splits)
  qed
qed

theorem restart_triggered_iff_witness:
  "status (onAbort ''boom'' (loaded (example_config\<lparr>restartMode := Some ''RestartOnCrash''\<rparr>))) = Some Exited \<and>
   committedStatus (onAbort ''boom'' (loaded (example_config\<lparr>restartMode := Some ''RestartOnCrash''\<rparr>))) \<noteq> Some Exited \<and>
   restart (config (onAbort ''boom'' (loaded (example_config\<lparr>restartMode := Some ''RestartOnCrash''\<rparr>)))) = Some 0 \<and>
   self_restartCount (snd (handleStatusChange
     (onAbort ''boom'' (loaded (example_config\<lparr>restartMode := Some ''RestartOnCrash''\<rparr>))))) = 1"
proof -
  define S where "S = onAbort ''boom'' (loaded (example_config\<lparr>restartMode := Some ''RestartOnCrash''\<rparr>))"
  have h: "status S = Some Exited" "committedStatus S \<noteq> Some Exited"
    "restart (config S) = Some 0" "self_restartCount S = 0"
    "restartMode (config S) = Some ''RestartOnCrash''" "crashed S"
    by (simp_all add: S_def loaded_def example_defs op_defs drain_step drain_done)
  show ?thesis
    using h restart_triggered_iff [OF h(1) h(2) h(3)] unfolding S_def [symmetric] by simp
qed

section \<open>C4: what the public fields show\<close>

text \<open>
  C4 as stated fails: the public fields are written at once, before the deferred
  reaction commits. After an abort during loading, with the reaction still
  queued and \<^verbatim>\<open>"Loading"\<close> the committed status, the page already reads
  \<^verbatim>\<open>"Exited"\<close>, \<^verbatim>\<open>crashed\<close> and the abort text.
\<close>

theorem public_status_counterexample:
  "committedStatus (onAbort ''boom'' (loaded example_config)) = Some Loading \<and>
   pending (onAbort ''boom'' (loaded example_config)) = 1 \<and>
   status (onAbort ''boom'' (loaded example_config)) = Some Exited \<and>
   crashed (onAbort ''boom'' (loaded example_config)) \<and>
   exitText (onAbort ''boom'' (loaded example_config)) = Some ''boom''"
  by (simp add: loaded_example onAbort_def setStatus_def)

text \<open>
  C4, amended. The public fields show the logical values: the status setter
  writes \<^verbatim>\<open>publicAPI.status\<close> synchronously, and the abort and exit
  callbacks write \<^verbatim>\<open>crashed\<close>, \<^verbatim>\<open>exitText\<close> and \<^verbatim>\<open>exitCode\<close>
  synchronously, while the private \<^verbatim>\<open>committedStatus\<close> stays until the
  queued reaction runs.
\<close>

theorem public_surface_is_logical:
  "status (setStatus s st) = Some s \<and>
   committedStatus (setStatus s st) = committedStatus st \<and>
   status (onAbort text st) = Some Exited \<and> crashed (onAbort text st) \<and>
   exitText (onAbort text st) = Some text \<and>
   committedStatus (onAbort text st) = committedStatus st \<and>
   status (quit code exc st) = Some Exited \<and>
   committedStatus (quit code exc st) = committedStatus st \<and>
   exitCode (quit code ordinary_exit st) = Some code"
  by (simp add: setStatus_def onAbort_def quit_def ordinary_exit_def)

section \<open>C5: a clean exit\<close>

text \<open>
  What can happen in a load cycle before the module terminates: the module
  reports status texts, and the host runs queued reactions.
\<close>

datatype cycle_step = ReportStatus string | RunTask

fun cycle_steps :: "cycle_step list \<Rightarrow> state \<Rightarrow> state" where
  "cycle_steps [] st = st"
| "cycle_steps (ReportStatus text # rest) st = cycle_steps rest (module_setStatus text st)"
| "cycle_steps (RunTask # rest) st = cycle_steps rest (if pending st = 0 then st else run_task st)"

definition running_cycle :: "state \<Rightarrow> bool" where
  "running_cycle st =
     (\<not> crashed st \<and> exitText st = None \<and> (status st = Some Loading \<or> status st = Some Running))"

text \<open>The example page, constructed and settled, before any load.\<close>

definition constructed :: state where
  "constructed = drain (QtLoader example_config example_window)"

lemma running_cycle_load:
  assumes "canLoadQt (host st)" and "Module_preRun st \<noteq> None"
  shows "running_cycle (snd (loadEmscriptenModule f st))"
proof -
  obtain hooks where "Module_preRun st = Some hooks"
    using assms(2) by auto
  then show ?thesis
    using assms(1)
    by (simp add: running_cycle_def loadEmscriptenModule_def canLoadQt_def setStatus_def Let_def)
qed

lemma running_cycle_report:
  "running_cycle st \<Longrightarrow> running_cycle (module_setStatus text st)"
  by (simp add: running_cycle_def module_setStatus_def setStatus_def)

lemma running_cycle_task:
  assumes "running_cycle st"
  shows "running_cycle (run_task st)"
proof -
  define s0 where "s0 = st\<lparr>pending := pending st - 1\<rparr>"
  have s0: "running_cycle s0"
    using assms by (simp add: s0_def running_cycle_def)
  have ne: "\<not> (status s0 = Some Exited \<and> restart_wanted s0)"
    using s0 by (auto simp add: running_cycle_def)
  have "running_cycle (snd (handleStatusChange s0))"
  proof (cases "committedStatus s0 = status s0")
    case True
    then show ?thesis using s0 by (simp add: handleStatusChange_def)
  next
    case False
    have c: "core (snd (handleStatusChange s0)) = core (s0\<lparr>committedStatus := status s0\<rparr>)"
      using handleStatusChange_frame [OF False ne] by simp
    show ?thesis
      using core_fields(2,3,8) [OF c] s0 by (simp add: running_cycle_def)
  qed
  moreover have "run_task st =
      (case handleStatusChange s0 of
         (None, st1) \<Rightarrow> st1
       | (Some e, st1) \<Rightarrow> st1\<lparr>trace := trace st1 @ [Uncaught e]\<rparr>)"
    by (simp only: run_task_def s0_def)
  ultimately show ?thesis
    by (cases "handleStatusChange s0") (auto simp add: running_cycle_def split: option.splits)
qed

lemma running_cycle_steps:
  "running_cycle st \<Longrightarrow> running_cycle (cycle_steps steps st)"
proof (induction steps arbitrary: st)
  case Nil
  then show ?case by simp
next
  case (Cons step steps)
  show ?case
  proof (cases step)
    case (ReportStatus msg)
    then show ?thesis
      using Cons.IH [OF running_cycle_report [OF Cons.prems]] by simp
  next
    case RunTask
    then show ?thesis
      using Cons.IH [OF running_cycle_task [OF Cons.prems]] Cons.IH [OF Cons.prems] by simp
  qed
qed

text \<open>
  C5 as stated fails: \<^verbatim>\<open>quit\<close> with an ordinary exit writes the exit code
  and calls the status setter, and writes neither \<^verbatim>\<open>crashed\<close> nor
  \<^verbatim>\<open>exitText\<close>. After an abort in the same load cycle, a termination with
  code 0 leaves \<^verbatim>\<open>crashed\<close> true and the abort text in place.
\<close>

theorem abort_then_clean_exit_counterexample:
  "name ordinary_exit = ''ExitStatus'' \<and>
   status (loaded example_config) = Some Loading \<and>
   crashed (quit 0 ordinary_exit (onAbort ''boom'' (loaded example_config))) \<and>
   exitCode (quit 0 ordinary_exit (onAbort ''boom'' (loaded example_config))) = Some 0 \<and>
   exitText (quit 0 ordinary_exit (onAbort ''boom'' (loaded example_config))) = Some ''boom''"
  by (simp add: loaded_example ordinary_exit_def onAbort_def quit_def setStatus_def)

text \<open>
  C5, amended. The termination callback with an ordinary exit sets the exit code
  and the status \<^verbatim>\<open>"Exited"\<close> and leaves \<^verbatim>\<open>crashed\<close> and \<^verbatim>\<open>exitText\<close>
  as they are. So in every load cycle in which no abnormal termination was
  reported before (a load that passed the capability check, followed by any
  status reports of the module and any queued reactions), a termination with
  code 0 and an ordinary exit results in \<^verbatim>\<open>crashed\<close> false, exit code 0,
  status \<^verbatim>\<open>"Exited"\<close> and no exit text.
\<close>

theorem clean_exit:
  assumes "name exc = ''ExitStatus''"
  shows "(exitCode (quit code exc st) = Some code \<and> status (quit code exc st) = Some Exited \<and>
          crashed (quit code exc st) = crashed st \<and> exitText (quit code exc st) = exitText st) \<and>
         (canLoadQt (host st0) \<and> Module_preRun st0 \<noteq> None \<longrightarrow>
            \<not> crashed (quit 0 exc (cycle_steps steps (snd (loadEmscriptenModule f st0)))) \<and>
            exitCode (quit 0 exc (cycle_steps steps (snd (loadEmscriptenModule f st0)))) = Some 0 \<and>
            status (quit 0 exc (cycle_steps steps (snd (loadEmscriptenModule f st0)))) = Some Exited \<and>
            exitText (quit 0 exc (cycle_steps steps (snd (loadEmscriptenModule f st0)))) = None)"
proof -
  have q: "exitCode (quit c exc s) = Some c \<and> status (quit c exc s) = Some Exited \<and>
          crashed (quit c exc s) = crashed s \<and> exitText (quit c exc s) = exitText s" for c s
    using assms by (simp add: quit_def setStatus_def)
  have r: "running_cycle (cycle_steps steps (snd (loadEmscriptenModule f st0)))"
    if "canLoadQt (host st0)" "Module_preRun st0 \<noteq> None"
    using running_cycle_steps [OF running_cycle_load [OF that]] .
  show ?thesis
    using q [of code st] q [of 0 "cycle_steps steps (snd (loadEmscriptenModule f st0))"] r
    by (auto simp add: running_cycle_def)
qed

theorem clean_exit_witness:
  "name ordinary_exit = ''ExitStatus'' \<and> canLoadQt (host constructed) \<and>
   Module_preRun constructed \<noteq> None \<and>
   \<not> crashed (quit 0 ordinary_exit
       (cycle_steps [RunTask, ReportStatus ''Running...''] (snd (loadEmscriptenModule 0 constructed)))) \<and>
   exitCode (quit 0 ordinary_exit
       (cycle_steps [RunTask, ReportStatus ''Running...''] (snd (loadEmscriptenModule 0 constructed)))) = Some 0 \<and>
   status (cycle_steps [RunTask, ReportStatus ''Running...''] (snd (loadEmscriptenModule 0 constructed))) =
     Some Running"
proof -
  have h: "name ordinary_exit = ''ExitStatus''" "canLoadQt (host constructed)"
    "Module_preRun constructed \<noteq> None"
    by (simp_all add: ordinary_exit_def constructed_def example_defs op_defs drain_step drain_done)
  have s: "status (cycle_steps [RunTask, ReportStatus ''Running...'']
      (snd (loadEmscriptenModule 0 constructed))) = Some Running"
    by (simp add: constructed_def example_defs op_defs drain_step drain_done)
  show ?thesis
    using h s clean_exit [OF h(1), of 0 constructed constructed
        "[RunTask, ReportStatus ''Running...'']" 0]
    by simp
qed

section \<open>C6: the capability probe\<close>

definition host_without_WebAssembly :: host where
  "host_without_WebAssembly =
     \<lparr>typeof_WebAssembly = ''undefined'', document_createElement = True,
      WebGLRenderingContext = True, getContext_webgl = Some True\<rparr>"

text \<open>
  \<^verbatim>\<open>webAssemblySupported\<close> answers true in every host.
  \<^verbatim>\<open>webGLSupported\<close> cannot throw (the \<^verbatim>\<open>catch\<close> turns every exception
  of the probe into false), and \<^verbatim>\<open>canLoadQt\<close> is the conjunction of the two
  probes.
\<close>

lemma webAssemblySupported_always: "webAssemblySupported h"
  by (simp add: webAssemblySupported_def)

lemma webGLSupported_false_on_failure:
  "webGLSupported_try h = Inl e \<Longrightarrow> webGLSupported h = False"
  by (simp add: webGLSupported_def)

text \<open>
  C6 (code defect). In a host that has no \<^verbatim>\<open>WebAssembly\<close> object,
  \<^verbatim>\<open>typeof WebAssembly\<close> is the string \<^verbatim>\<open>"undefined"\<close>; the probe
  compares it with the value \<^verbatim>\<open>undefined\<close> and so still answers true, and
  \<^verbatim>\<open>canLoadQt\<close> answers true with it.
\<close>

theorem webAssemblySupported_without_WebAssembly:
  "webAssemblySupported host_without_WebAssembly \<and> canLoadQt host_without_WebAssembly"
  by (simp add: webAssemblySupported_def canLoadQt_def webGLSupported_def
      webGLSupported_try_def host_without_WebAssembly_def)

section \<open>C7: external mode without a presentation callback\<close>

text \<open>
  Without containers, \<^verbatim>\<open>setErrorContent\<close>, \<^verbatim>\<open>setLoaderContent\<close> and
  \<^verbatim>\<open>setExitContent\<close> test their callback against \<^verbatim>\<open>undefined\<close> first, and
  do nothing when it is absent.
\<close>

lemma external_absent_callback_noop:
  assumes "containerElements (config st) = None"
  shows "showError (config st) = None \<Longrightarrow> setErrorContent st = (None, st)"
    and "showLoader (config st) = None \<Longrightarrow> setLoaderContent st = (None, st)"
    and "showExit (config st) = None \<Longrightarrow> setExitContent st = (None, st)"
  using assms by (simp_all add: setErrorContent_def setLoaderContent_def setExitContent_def)

text \<open>
  C7 (code defect). \<^verbatim>\<open>setCanvasContent\<close> has no such test: without
  containers and without \<^verbatim>\<open>showCanvas\<close>, the reaction to the status
  \<^verbatim>\<open>"Running"\<close> calls \<^verbatim>\<open>config.showCanvas()\<close> on \<^verbatim>\<open>undefined\<close> and
  throws a TypeError, which leaves the queued task uncaught.
\<close>

theorem external_Running_without_showCanvas_throws:
  "containerElements (config (module_setStatus ''Running...'' (loaded example_config))) = None \<and>
   showCanvas (config (module_setStatus ''Running...'' (loaded example_config))) = None \<and>
   status (module_setStatus ''Running...'' (loaded example_config)) = Some Running \<and>
   fst (handleStatusChange (module_setStatus ''Running...'' (loaded example_config))) = Some TypeError \<and>
   trace (drain (module_setStatus ''Running...'' (loaded example_config))) =
     [CreateModule 0, Uncaught TypeError]"
  by (simp add: loaded_def example_defs op_defs drain_step drain_done)

section \<open>C8: rendering of an exit\<close>

text \<open>
  C8 as stated fails in external mode: without containers, a supplied
  \<^verbatim>\<open>showExit\<close> is called for a clean exit too, with \<^verbatim>\<open>crashed\<close> false and
  the exit code as arguments.
\<close>

theorem external_clean_exit_counterexample:
  "containerElements (config (quit 0 ordinary_exit (loaded (example_config\<lparr>showExit := Some (User None)\<rparr>)))) = None \<and>
   \<not> crashed (quit 0 ordinary_exit (loaded (example_config\<lparr>showExit := Some (User None)\<rparr>))) \<and>
   trace (drain (quit 0 ordinary_exit (loaded (example_config\<lparr>showExit := Some (User None)\<rparr>)))) =
     [CreateModule 0, ShowExit False (Some 0) None]"
  by (simp add: loaded_def ordinary_exit_def example_defs op_defs drain_step drain_done)

text \<open>
  C8, amended. For a committed status \<^verbatim>\<open>"Exited"\<close> that is not restarted:
  with containers, a clean exit (\<^verbatim>\<open>crashed\<close> false) calls no callback and
  changes no container; without containers, a supplied \<^verbatim>\<open>showExit\<close> is
  called once with \<^verbatim>\<open>crashed\<close> and the exit code, whether \<^verbatim>\<open>crashed\<close> is
  true or not, and an absent one is not called.
\<close>

theorem exit_rendering:
  assumes "status st = Some Exited" and "\<not> restart_wanted st"
  shows "(containerElements (config st) \<noteq> None \<and> \<not> crashed st \<longrightarrow> dispatch st = (None, st)) \<and>
         (containerElements (config st) = None \<and> showExit (config st) = Some (User r) \<longrightarrow>
            dispatch st = (None, st\<lparr>trace := trace st @ [ShowExit (crashed st) (exitCode st) None]\<rparr>)) \<and>
         (containerElements (config st) = None \<and> showExit (config st) = None \<longrightarrow>
            dispatch st = (None, st))"
  using assms
  by (auto simp add: dispatch_def setExitContent_def call_showExit_def Let_def)

theorem exit_rendering_witness:
  "status (quit 0 ordinary_exit (loaded (example_config\<lparr>showExit := Some (User None)\<rparr>))) = Some Exited \<and>
   \<not> restart_wanted (quit 0 ordinary_exit (loaded (example_config\<lparr>showExit := Some (User None)\<rparr>))) \<and>
   trace (snd (dispatch (quit 0 ordinary_exit (loaded (example_config\<lparr>showExit := Some (User None)\<rparr>))))) =
     [CreateModule 0, ShowExit False (Some 0) None]"
proof -
  define S where "S = quit 0 ordinary_exit (loaded (example_config\<lparr>showExit := Some (User None)\<rparr>))"
  have h: "status S = Some Exited" "\<not> restart_wanted S"
    "containerElements (config S) = None" "showExit (config S) = Some (User None)"
    "trace S = [CreateModule 0]" "\<not> crashed S" "exitCode S = Some 0"
    by (simp_all add: S_def loaded_def ordinary_exit_def example_defs op_defs drain_step drain_done)
  show ?thesis
    using h exit_rendering [OF h(1) h(2), of None] unfolding S_def [symmetric] by simp
qed

section \<open>C9: environment injection\<close>

text \<open>An environment of two pairs with ASCII keys.\<close>

definition example_environment :: "(string \<times> string) list" where
  "example_environment = [(''path'', ''/bin''), (''Lang'', ''C'')]"

lemma ascii_toUpperCase_examples:
  "ascii_toUpperCase ''path'' = ''PATH''"
  "ascii_toUpperCase ''Lang'' = ''LANG''"
  "ascii ''path''"
  "ascii ''Lang''"
  by code_simp+

lemma envInjection_loop_eq:
  "envInjection_loop up entries ENV =
     ENV ++ map_of (rev (map (\<lambda>(key, v). (up key, v)) entries))"
proof (induction entries arbitrary: ENV)
  case Nil
  show ?case by simp
next
  case (Cons kv entries)
  obtain key v where kv: "kv = (key, v)" by (cases kv)
  show ?case
    by (simp add: kv Cons map_add_upd_left fun_eq_iff map_add_def split: option.splits)
qed

lemma upper_keys_found:
  assumes "distinct (map (\<lambda>(key, v). up key) entries)" and "(key, v) \<in> set entries"
  shows "(ENV ++ map_of (rev (map (\<lambda>(key, v). (up key, v)) entries))) (up key) = Some v"
proof -
  have "map fst (map (\<lambda>(key, v). (up key, v)) entries) = map (\<lambda>(key, v). up key) entries"
    by (induction entries) auto
  then have d: "distinct (map fst (rev (map (\<lambda>(key, v). (up key, v)) entries)))"
    using assms(1) by (simp add: rev_map [symmetric] del: map_map)
  have "(up key, v) \<in> set (rev (map (\<lambda>(key, v). (up key, v)) entries))"
    using assms(2) by force
  then have "map_of (rev (map (\<lambda>(key, v). (up key, v)) entries)) (up key) = Some v"
    using d by (rule map_of_is_SomeI [rotated])
  then show ?thesis by (simp add: map_add_def)
qed

text \<open>
  C9 as stated fails: the injection step stores each value under the upper-case
  form of its key, so the pair \<^verbatim>\<open>path\<close>, \<^verbatim>\<open>/bin\<close> (an ASCII key, on which
  the host's conversion is \<open>ascii_toUpperCase\<close>) is not applied as given; the
  table has the entry \<^verbatim>\<open>PATH\<close> and no entry \<^verbatim>\<open>path\<close> afterwards.
\<close>

theorem environment_key_counterexample:
  "ascii ''path'' \<and>
   envInjection ascii_toUpperCase
       (example_config\<lparr>environment := Some [(''path'', ''/bin'')]\<rparr>) Map.empty =
     Inr [''PATH'' \<mapsto> ''/bin''] \<and>
   [''PATH'' \<mapsto> ''/bin''] ''path'' = None"
  by (simp add: envInjection_def example_config_def ascii_toUpperCase_examples)

text \<open>
  C9, amended. When the environment injection step runs (the module running its
  pre-run hooks before it starts), every key/value pair of the configured
  environment is applied with its key converted by \<^verbatim>\<open>toUpperCase\<close> and its
  value as given, in the order of the entries: the table afterwards is the table
  before, overwritten with the pairs under their converted keys, a later pair
  over an earlier one. When the converted keys are distinct, every pair is found
  afterwards under its converted key, which for an ASCII key is the key with a
  to z turned into A to Z. The theorem holds for every conversion function of
  the host that does this on ASCII strings.
\<close>

theorem environment_injection:
  assumes "environment cfg = Some entries"
    and "\<forall>s. ascii s \<longrightarrow> toUpperCase s = ascii_toUpperCase s"
  shows "envInjection toUpperCase cfg ENV =
           Inr (ENV ++ map_of (rev (map (\<lambda>(key, v). (toUpperCase key, v)) entries))) \<and>
         (distinct (map (\<lambda>(key, v). toUpperCase key) entries) \<longrightarrow>
            (\<forall>(key, v) \<in> set entries.
               (ENV ++ map_of (rev (map (\<lambda>(key, v). (toUpperCase key, v)) entries)))
                 (toUpperCase key) = Some v \<and>
               (ascii key \<longrightarrow>
                  (ENV ++ map_of (rev (map (\<lambda>(key, v). (toUpperCase key, v)) entries)))
                    (ascii_toUpperCase key) = Some v)))"
proof -
  have a: "envInjection toUpperCase cfg ENV =
           Inr (ENV ++ map_of (rev (map (\<lambda>(key, v). (toUpperCase key, v)) entries)))"
    using assms(1) by (simp add: envInjection_def envInjection_loop_eq)
  have b: "(ENV ++ map_of (rev (map (\<lambda>(key, v). (toUpperCase key, v)) entries)))
              (toUpperCase key) = Some v"
    if "distinct (map (\<lambda>(key, v). toUpperCase key) entries)" "(key, v) \<in> set entries"
    for key v
    using upper_keys_found [OF that] .
  have c: "(ENV ++ map_of (rev (map (\<lambda>(key, v). (toUpperCase key, v)) entries)))
              (ascii_toUpperCase key) = Some v"
    if "distinct (map (\<lambda>(key, v). toUpperCase key) entries)" "(key, v) \<in> set entries"
      "ascii key"
    for key v
    using b [OF that(1,2)] assms(2) that(3) by simp
  show ?thesis
    using a b c by auto
qed

theorem environment_injection_witness:
  "environment (example_config\<lparr>environment := Some example_environment\<rparr>) =
     Some example_environment \<and>
   distinct (map (\<lambda>(key, v). ascii_toUpperCase key) example_environment) \<and>
   (''path'', ''/bin'') \<in> set example_environment \<and> ascii ''path'' \<and>
   (''Lang'', ''C'') \<in> set example_environment \<and> ascii ''Lang'' \<and>
   envInjection ascii_toUpperCase
       (example_config\<lparr>environment := Some example_environment\<rparr>) Map.empty =
     Inr [''PATH'' \<mapsto> ''/bin'', ''LANG'' \<mapsto> ''C'']"
proof -
  have e: "environment (example_config\<lparr>environment := Some example_environment\<rparr>) =
     Some example_environment"
    by simp
  have u: "\<forall>s. ascii s \<longrightarrow> ascii_toUpperCase s = ascii_toUpperCase s"
    by simp
  show ?thesis
    using e environment_injection [OF e u, of Map.empty]
    by (simp add: example_environment_def ascii_toUpperCase_examples)
qed

section \<open>C10: construction commits the status Created\<close>

text \<open>
  C10. Constructing a loader sets the status to \<^verbatim>\<open>"Created"\<close> and queues
  the deferred reaction. When the queue has run and \<^verbatim>\<open>loadEmscriptenModule\<close>
  was never called, the reaction has committed \<^verbatim>\<open>"Created"\<close>, has called a
  supplied \<^verbatim>\<open>statusChanged\<close> observer exactly once, with \<^verbatim>\<open>"Created"\<close>, and
  has rendered nothing: no presentation callback was called and no container
  was touched.
\<close>

theorem construction_notifies_Created:
  "drain (QtLoader cfg w) =
     (QtLoader cfg w)\<lparr>pending := 0, committedStatus := Some Created,
        trace := trace w @ (if statusChanged cfg then [StatusChanged (Some Created)] else [])\<rparr>"
proof -
  define st where "st = QtLoader cfg w"
  have p: "pending st = Suc (pending w)" "status st = Some Created" "committedStatus st = None"
    "trace st = trace w" "statusChanged (config st) = statusChanged cfg"
    by (simp_all add: st_def QtLoader_def setStatus_def normalize_config_def Let_def)
  have r: "run_task st = st\<lparr>pending := pending w, committedStatus := Some Created,
        trace := trace w @ (if statusChanged cfg then [StatusChanged (Some Created)] else [])\<rparr>"
    using p by (simp add: run_task_def handleStatusChange_def dispatch_def notify_def)
  have "drain st = drain (run_task st)"
    using drain_step [of st "pending w"] p by simp
  also have "\<dots> = (run_task st)\<lparr>pending := 0\<rparr>"
    using drain_quiet [of "run_task st"] p r by simp
  finally show ?thesis
    using r by (simp add: st_def)
qed

theorem construction_notifies_Created_witness:
  "statusChanged (example_config\<lparr>statusChanged := True\<rparr>) \<and>
   trace (drain (QtLoader (example_config\<lparr>statusChanged := True\<rparr>) example_window)) =
     [StatusChanged (Some Created)] \<and>
   children (drain (QtLoader (example_config\<lparr>statusChanged := True\<rparr>) example_window)) =
     children example_window"
  using construction_notifies_Created [of "example_config\<lparr>statusChanged := True\<rparr>" example_window]
  by (simp add: example_defs QtLoader_def setStatus_def)

end
